theory Spec2Isabelle
  imports Complex_Main
begin

section \<open>JavaScript numbers\<close>

text \<open>
  A number of the surface manager is a finite double, given by its real value, one of
  the two infinities, or NaN. The two zeros are identified: the class never divides by
  a size, and \<open>===\<close>, \<open>||\<close> and the conversion to an integer do not tell them apart.
\<close>

datatype number = Finite real | PosInfinity | NegInfinity | NaN

text \<open>\<open>bits n\<close> is the number of binary digits of \<open>n\<close>.\<close>

fun bits :: "nat \<Rightarrow> nat" where
  "bits n = (if n = 0 then 0 else Suc (bits (n div 2)))"

declare bits.simps [simp del]

text \<open>The binary exponent of a non-zero real: \<open>2 ^ e \<le> \<bar>x\<bar> < 2 ^ (e + 1)\<close>.\<close>

definition exponent :: "real \<Rightarrow> int" where
  "exponent x =
     (if 1 \<le> \<bar>x\<bar> then int (bits (nat \<lfloor>\<bar>x\<bar>\<rfloor>)) - 1
      else - int (bits (nat (\<lceil>1 / \<bar>x\<bar>\<rceil> - 1))))"

definition pow2 :: "int \<Rightarrow> real" where
  "pow2 k = (if 0 \<le> k then 2 ^ nat k else 1 / 2 ^ nat (- k))"

definition round_half_even :: "real \<Rightarrow> int" where
  "round_half_even x =
     (let n = \<lfloor>x\<rfloor>; d = x - of_int n
      in if d < 1 / 2 then n else if 1 / 2 < d then n + 1 else if even n then n else n + 1)"

text \<open>
  The double nearest to a real, ties to even: 53 significant bits, the exponent not
  below that of the subnormal numbers, an infinity from \<open>2 ^ 1024\<close> on.
\<close>

definition round_to_double :: "real \<Rightarrow> number" where
  "round_to_double x =
     (if x = 0 then Finite 0
      else
        let e = max (exponent x) (- 1022);
            ulp = pow2 (e - 52);
            y = of_int (round_half_even (x / ulp)) * ulp
        in if y \<noteq> 0 \<and> 1024 \<le> exponent y
           then (if 0 < x then PosInfinity else NegInfinity)
           else Finite y)"

text \<open>\<open>a * b\<close> for two finite numbers, \<open>Math.floor\<close> and \<open>===\<close>.\<close>

definition number_times :: "real \<Rightarrow> real \<Rightarrow> number" where
  "number_times a b = round_to_double (a * b)"

fun Math_floor :: "number \<Rightarrow> number" where
  "Math_floor (Finite x) = Finite (of_int \<lfloor>x\<rfloor>)"
| "Math_floor PosInfinity = PosInfinity"
| "Math_floor NegInfinity = NegInfinity"
| "Math_floor NaN = NaN"

definition strict_equal :: "number \<Rightarrow> number \<Rightarrow> bool" where
  "strict_equal a b \<longleftrightarrow> a = b \<and> a \<noteq> NaN"

text \<open>
  Assigning a number to an \<open>unsigned long\<close> attribute converts it: NaN and the
  infinities to 0, a finite value truncated towards zero and reduced modulo \<open>2 ^ 32\<close>.
  The \<open>width\<close> and \<open>height\<close> of a canvas element keep a converted value up to
  2147483647 and take their default (300 and 150) for a larger one.
\<close>

fun to_unsigned_long :: "number \<Rightarrow> int" where
  "to_unsigned_long (Finite x) = (if 0 \<le> x then \<lfloor>x\<rfloor> else \<lceil>x\<rceil>) mod 4294967296"
| "to_unsigned_long _ = 0"

definition reflect_dimension :: "int \<Rightarrow> number \<Rightarrow> int" where
  "reflect_dimension deflt v =
     (let n = to_unsigned_long v in if n \<le> 2147483647 then n else deflt)"

text \<open>The numbers a canvas dimension keeps as assigned: the integers up to 2147483647.\<close>

fun valid_dimension :: "number \<Rightarrow> bool" where
  "valid_dimension (Finite x) \<longleftrightarrow> of_int \<lfloor>x\<rfloor> = x \<and> 0 \<le> x \<and> x \<le> 2147483647"
| "valid_dimension _ \<longleftrightarrow> False"

section \<open>Surface resource manager: \<open>src/core/CanvasContext.ts\<close>\<close>

text \<open>
  The platform objects a \<open>CanvasContext\<close> talks to are the HTML canvas element and
  its \<open>GPUCanvasContext\<close>. The element is a record of the four attributes the class
  reads or writes and of what \<open>getContext('webgpu')\<close> returns: \<open>width\<close> and \<open>height\<close>
  are \<open>unsigned long\<close>, \<open>clientWidth\<close> and \<open>clientHeight\<close> are \<open>long\<close>. The device pixel
  ratio is a finite double. Every call the class issues to the platform is appended to
  \<open>issued\<close>, in order: \<open>context.configure\<close> and the assignments to the two dimensions
  of the element, with the number assigned.
\<close>

datatype error = TypeError

record Size =
  width :: number
  height :: number

record GPUTexture =
  texture_id :: nat
  texture_width :: int
  texture_height :: int

record GPUCanvasContext =
  currentTexture :: GPUTexture

record HTMLCanvasElement =
  canvas_width :: int
  canvas_height :: int
  clientWidth :: int
  clientHeight :: int
  webgpu :: "GPUCanvasContext option"

datatype platform_call =
    ContextConfigure string
  | CanvasSetWidth number
  | CanvasSetHeight number

record Platform =
  devicePixelRatio :: real
  preferredCanvasFormat :: string

record CanvasContext =
  gpuContext :: GPUCanvasContext
  canvas :: HTMLCanvasElement
  size_c :: Size
  pixelRatio_c :: real
  issued :: "platform_call list"

text \<open>
  \<open>configure()\<close>: one \<open>context.configure\<close> call with the preferred canvas format
  (usage and alpha mode are constants of the source).
\<close>

definition configure :: "Platform \<Rightarrow> CanvasContext \<Rightarrow> CanvasContext" where
  "configure win c = c\<lparr>issued := issued c @ [ContextConfigure (preferredCanvasFormat win)]\<rparr>"

text \<open>
  The constructor. \<open>canvas.getContext('webgpu')!\<close> is \<open>null\<close> when the platform has no
  drawable context for the element; the \<open>configure()\<close> that follows then throws.
\<close>

definition CanvasContext_new :: "Platform \<Rightarrow> HTMLCanvasElement \<Rightarrow> error + CanvasContext" where
  "CanvasContext_new win cv =
     (case webgpu cv of
        None \<Rightarrow> Inl TypeError
      | Some ctx \<Rightarrow>
          Inr (configure win
                 \<lparr>gpuContext = ctx, canvas = cv,
                  size_c = \<lparr>width = Finite (of_int (canvas_width cv)),
                            height = Finite (of_int (canvas_height cv))\<rparr>,
                  pixelRatio_c = 1, issued = []\<rparr>))"

text \<open>
  \<open>resize\<close> is public and takes any two numbers: it stores them as the size and
  assigns them to the dimensions of the element, which converts them.
\<close>

definition resize :: "number \<Rightarrow> number \<Rightarrow> CanvasContext \<Rightarrow> CanvasContext" where
  "resize w h c =
     c\<lparr>size_c := \<lparr>width = w, height = h\<rparr>,
       canvas := (canvas c)\<lparr>canvas_width := reflect_dimension 300 w,
                              canvas_height := reflect_dimension 150 h\<rparr>,
       issued := issued c @ [CanvasSetWidth w, CanvasSetHeight h]\<rparr>"

definition getCurrentTexture :: "CanvasContext \<Rightarrow> GPUTexture" where
  "getCurrentTexture c = currentTexture (gpuContext c)"

text \<open>\<open>window.devicePixelRatio || 1\<close>: the falsy ratio \<open>0\<close> is replaced by \<open>1\<close>.\<close>

definition pixelRatio :: "Platform \<Rightarrow> real" where
  "pixelRatio win = (if devicePixelRatio win = 0 then 1 else devicePixelRatio win)"

text \<open>The size \<open>updateSize\<close> computes from the element's displayed size.\<close>

definition effectiveSize :: "Platform \<Rightarrow> HTMLCanvasElement \<Rightarrow> Size" where
  "effectiveSize win cv =
     \<lparr>width = Math_floor (number_times (of_int (clientWidth cv)) (pixelRatio win)),
      height = Math_floor (number_times (of_int (clientHeight cv)) (pixelRatio win))\<rparr>"

definition updateSize :: "Platform \<Rightarrow> CanvasContext \<Rightarrow> CanvasContext" where
  "updateSize win c =
     (let displayWidth = clientWidth (canvas c);
          displayHeight = clientHeight (canvas c);
          pixelRatio = pixelRatio win;
          w = Math_floor (number_times (of_int displayWidth) pixelRatio);
          h = Math_floor (number_times (of_int displayHeight) pixelRatio)
      in if strict_equal (width (size_c c)) w \<and> strict_equal (height (size_c c)) h then c
         else resize w h c)"

text \<open>
  Between two calls the page lays the element out again and the window may move to
  another screen: a \<open>layout\<close> is the displayed size and the device pixel ratio that
  the next \<open>updateSize\<close> call finds.
\<close>

record layout =
  shown_width :: int
  shown_height :: int
  ratio :: real

definition relayout :: "layout \<Rightarrow> CanvasContext \<Rightarrow> CanvasContext" where
  "relayout l c =
     c\<lparr>canvas := (canvas c)\<lparr>clientWidth := shown_width l, clientHeight := shown_height l\<rparr>\<rparr>"

definition windowOf :: "Platform \<Rightarrow> layout \<Rightarrow> Platform" where
  "windowOf win l = win\<lparr>devicePixelRatio := ratio l\<rparr>"

definition updateSize_at :: "Platform \<Rightarrow> layout \<Rightarrow> CanvasContext \<Rightarrow> CanvasContext" where
  "updateSize_at win l c = updateSize (windowOf win l) (relayout l c)"

primrec updateSizes :: "Platform \<Rightarrow> layout list \<Rightarrow> CanvasContext \<Rightarrow> CanvasContext" where
  "updateSizes win [] c = c"
| "updateSizes win (l # ls) c = updateSizes win ls (updateSize_at win l c)"

text \<open>
  The effective size of a layout: the floor of the displayed size times the pixel
  density, the product being the double that JavaScript computes.
\<close>

definition layoutSize :: "layout \<Rightarrow> Size" where
  "layoutSize l =
     (let r = (if ratio l = 0 then 1 else ratio l)
      in \<lparr>width = Math_floor (number_times (of_int (shown_width l)) r),
          height = Math_floor (number_times (of_int (shown_height l)) r)\<rparr>)"

text \<open>
  A reconfiguration of the presentation chain is one \<open>resize\<close>: the assignment of the
  element's backing dimensions, which is what resizes the images the chain hands out,
  and what the comment in \<open>updateSize\<close> calls reconfiguring. Each \<open>resize\<close> issues
  exactly one \<open>CanvasSetWidth\<close>.
\<close>

fun is_reconfiguration :: "platform_call \<Rightarrow> bool" where
  "is_reconfiguration (CanvasSetWidth w) = True"
| "is_reconfiguration _ = False"

fun is_configure :: "platform_call \<Rightarrow> bool" where
  "is_configure (ContextConfigure f) = True"
| "is_configure _ = False"

definition reconfigurations :: "CanvasContext \<Rightarrow> nat" where
  "reconfigurations c = length (filter is_reconfiguration (issued c))"

text \<open>
  The comparison \<open>updateSize\<close> makes between the stored size and the computed one, and
  the number of calls in a sequence whose effective size differs from the size stored
  when the call is made; the stored size after a call is that call's effective size.
\<close>

definition same_size :: "Size \<Rightarrow> Size \<Rightarrow> bool" where
  "same_size s t \<longleftrightarrow>
     strict_equal (width s) (width t) \<and> strict_equal (height s) (height t)"

primrec changes :: "Size \<Rightarrow> Size list \<Rightarrow> nat" where
  "changes s [] = 0"
| "changes s (t # ts) = (if same_size s t then 0 else 1) + changes t ts"

text \<open>The invariant of claim C10: \<open>size.width === canvas.width\<close>, and so for the height.\<close>

definition size_matches_canvas :: "CanvasContext \<Rightarrow> bool" where
  "size_matches_canvas c \<longleftrightarrow>
     strict_equal (width (size_c c)) (Finite (of_int (canvas_width (canvas c)))) \<and>
     strict_equal (height (size_c c)) (Finite (of_int (canvas_height (canvas c))))"

section \<open>Pipeline cache: \<open>PipelineManager\<close>\<close>

text \<open>
  The manager's state is its \<open>pipelines\<close> map. \<open>getOrCreate\<close> is written over any
  world \<open>'w\<close> that the builder and the device act on: \<open>createRenderPipeline\<close> is the
  method of the device the manager holds, \<open>descriptor\<close> the builder closure. A pipeline
  object is never falsy, so \<open>!pipeline\<close> holds exactly when the key is absent.
\<close>

definition getOrCreate ::
  "('d \<Rightarrow> 'w \<Rightarrow> 'p \<times> 'w) \<Rightarrow> string \<Rightarrow> ('w \<Rightarrow> 'd \<times> 'w) \<Rightarrow> (string \<rightharpoonup> 'p) \<Rightarrow> 'w
     \<Rightarrow> 'p \<times> (string \<rightharpoonup> 'p) \<times> 'w" where
  "getOrCreate createRenderPipeline key descriptor pipelines w =
     (case pipelines key of
        Some pipeline \<Rightarrow> (pipeline, pipelines, w)
      | None \<Rightarrow>
          (case descriptor w of
             (desc, w1) \<Rightarrow>
               (case createRenderPipeline desc w1 of
                  (pipeline, w2) \<Rightarrow> (pipeline, pipelines(key \<mapsto> pipeline), w2))))"

text \<open>
  A builder and a device that count their invocations: the world is extended by two
  counters, which the wrapped builder and the wrapped device cannot reach.
\<close>

definition counting_builder :: "('w \<Rightarrow> 'd \<times> 'w) \<Rightarrow> nat \<times> nat \<times> 'w \<Rightarrow> 'd \<times> nat \<times> nat \<times> 'w" where
  "counting_builder b = (\<lambda>(built, compiled, w).
     case b w of (d, w') \<Rightarrow> (d, Suc built, compiled, w'))"

definition counting_device ::
  "('d \<Rightarrow> 'w \<Rightarrow> 'p \<times> 'w) \<Rightarrow> 'd \<Rightarrow> nat \<times> nat \<times> 'w \<Rightarrow> 'p \<times> nat \<times> nat \<times> 'w" where
  "counting_device dev = (\<lambda>d (built, compiled, w).
     case dev d w of (p, w') \<Rightarrow> (p, built, Suc compiled, w'))"

section \<open>Frame orchestrator: \<open>Engine\<close>\<close>

subsection \<open>Collaborators\<close>

type_synonym mat4 = "real list"

datatype RenderTarget =
    CanvasTarget string
  | TextureTarget GPUTexture int int

record Mesh =
  vertexBuffer :: nat
  indexBuffer :: "nat option"
  indexCount :: nat
  vertexCount :: nat

record Renderable =
  getTransform :: mat4
  mesh :: Mesh

record Scene =
  renderables :: "Renderable list"

text \<open>
  A camera as the engine sees it in one frame: the two matrices are what
  \<open>getViewMatrix()\<close> and \<open>getProjectionMatrix()\<close> return, \<open>perspective\<close> is
  \<open>camera instanceof PerspectiveCamera\<close>.
\<close>

record ICamera =
  scene :: Scene
  target :: RenderTarget
  enabled :: bool
  order :: real
  getViewMatrix :: mat4
  getProjectionMatrix :: mat4
  perspective :: bool

record SceneManager =
  cameras :: "ICamera list"

text \<open>
  Modelled from the spec: \<open>SceneManager.getRenderCameras\<close> is not among the sources.
  The spec has the collaborator yield the enabled cameras in ascending priority order,
  ties broken by stable input order.
\<close>

definition getRenderCameras :: "SceneManager \<Rightarrow> ICamera list" where
  "getRenderCameras sm = sort_key order (filter enabled (cameras sm))"

subsection \<open>The device and the calls the engine issues\<close>

datatype GPUIndexFormat = Uint16 | Uint32

record GPURenderPipelineDescriptor =
  vertex_module :: nat
  fragment_module :: nat
  target_format :: string

text \<open>
  Every call the engine makes on a collaborator (device, queue, encoders, console,
  scene manager, camera) is recorded in order. Objects are identified by handles;
  \<open>nextHandle\<close> is the identity of the next object created. Pass-encoder methods act on
  the pass opened last. \<open>UpdateAspect w h\<close> stands for \<open>camera.updateAspect(w / h)\<close>;
  \<open>WriteBuffer b 0 (m, v, p)\<close> writes the 48 floats holding \<open>m\<close> at 0, \<open>v\<close> at 16 and
  \<open>p\<close> at 32.
\<close>

datatype call =
    CreateCommandEncoder nat
  | SceneUpdate real
  | ConsoleWarn string
  | CreateView nat nat
  | UpdateAspect int int
  | CreateShaderModule nat
  | CreateRenderPipeline nat GPURenderPipelineDescriptor
  | CreateBuffer nat nat
  | BeginRenderPass nat nat
  | SetPipeline nat
  | WriteBuffer nat nat "mat4 \<times> mat4 \<times> mat4"
  | CreateBindGroup nat nat nat
  | SetBindGroup nat nat
  | SetVertexBuffer nat nat
  | SetIndexBuffer nat GPUIndexFormat
  | DrawIndexed nat
  | Draw nat
  | EndPass
  | Finish nat
  | Submit nat

record World =
  nextHandle :: nat
  calls :: "call list"

definition emit :: "call \<Rightarrow> World \<Rightarrow> World" where
  "emit c w = w\<lparr>calls := calls w @ [c]\<rparr>"

definition create :: "(nat \<Rightarrow> call) \<Rightarrow> World \<Rightarrow> nat \<times> World" where
  "create mk w =
     (nextHandle w, w\<lparr>nextHandle := Suc (nextHandle w), calls := calls w @ [mk (nextHandle w)]\<rparr>)"

definition createCommandEncoder :: "World \<Rightarrow> nat \<times> World" where
  "createCommandEncoder = create CreateCommandEncoder"

definition createView :: "GPUTexture \<Rightarrow> World \<Rightarrow> nat \<times> World" where
  "createView texture = create (CreateView (texture_id texture))"

definition createShaderModule :: "World \<Rightarrow> nat \<times> World" where
  "createShaderModule = create CreateShaderModule"

definition createRenderPipeline :: "GPURenderPipelineDescriptor \<Rightarrow> World \<Rightarrow> nat \<times> World" where
  "createRenderPipeline desc = create (\<lambda>h. CreateRenderPipeline h desc)"

definition createBuffer :: "nat \<Rightarrow> World \<Rightarrow> nat \<times> World" where
  "createBuffer sz = create (\<lambda>h. CreateBuffer h sz)"

definition createBindGroup :: "nat \<Rightarrow> nat \<Rightarrow> World \<Rightarrow> nat \<times> World" where
  "createBindGroup pipeline buffer = create (\<lambda>h. CreateBindGroup h pipeline buffer)"

subsection \<open>The engine\<close>

record Engine =
  lastFrameTime :: real
  uniformBuffer :: "nat option"
  pipelines :: "string \<rightharpoonup> nat"

record FrameContext =
  commandEncoder :: nat
  lastDeltaTime :: real

text \<open>
  What one call of \<open>RenderLoop\<close> finds around it: the two readings of
  \<open>performance.now()\<close> (in \<open>beginFrame\<close> and in \<open>buildRenderStack\<close>), the platform,
  the canvas manager's registry, the scene manager and the effect of its update hook.
  Timestamps and delta-times are \<open>real\<close>.
\<close>

record Frame =
  now_beginFrame :: real
  now_buildRenderStack :: real
  platform :: Platform
  canvasManager :: "string \<rightharpoonup> CanvasContext"
  sceneManager :: SceneManager
  update :: "real \<Rightarrow> SceneManager \<Rightarrow> SceneManager"

definition Engine_new :: Engine where
  "Engine_new = \<lparr>lastFrameTime = 0, uniformBuffer = None, pipelines = Map.empty\<rparr>"

definition beginFrame :: "real \<Rightarrow> Engine \<times> World \<Rightarrow> FrameContext \<times> Engine \<times> World" where
  "beginFrame now s =
     (case s of (e, w) \<Rightarrow>
        let deltaTime = (if lastFrameTime e = 0 then 0 else (now - lastFrameTime e) / 1000);
            e1 = e\<lparr>lastFrameTime := now\<rparr>
        in case createCommandEncoder w of
             (encoder, w1) \<Rightarrow>
               (\<lparr>commandEncoder = encoder, lastDeltaTime = deltaTime\<rparr>, e1, w1))"

definition buildRenderStack :: "Frame \<Rightarrow> Engine \<times> World \<Rightarrow> SceneManager \<times> World" where
  "buildRenderStack fr s =
     (case s of (e, w) \<Rightarrow>
        let now = now_buildRenderStack fr;
            deltaTime = (if lastFrameTime e = 0 then 0 else (now - lastFrameTime e) / 1000)
        in (update fr deltaTime (sceneManager fr), emit (SceneUpdate deltaTime) w))"

definition endFrame :: "FrameContext \<Rightarrow> World \<Rightarrow> World" where
  "endFrame frame w = emit (Submit (commandEncoder frame)) (emit (Finish (commandEncoder frame)) w)"

text \<open>
  \<open>_createRenderPipelineDescriptor\<close>: two shader modules and the descriptor naming
  them; layout, vertex layout and topology are constants of the source.
\<close>

definition createRenderPipelineDescriptor ::
  "string \<Rightarrow> World \<Rightarrow> GPURenderPipelineDescriptor \<times> World" where
  "createRenderPipelineDescriptor format w =
     (case createShaderModule w of
        (vsModule, w1) \<Rightarrow>
          (case createShaderModule w1 of
             (fsModule, w2) \<Rightarrow>
               (\<lparr>vertex_module = vsModule, fragment_module = fsModule, target_format = format\<rparr>,
                w2)))"

text \<open>
  The body of the loop over \<open>camera.scene.renderables\<close> in \<open>renderCamera\<close>. The
  product \<open>mvp\<close> the source computes is never used and has no effect.
\<close>

definition renderCamera_draw ::
  "nat \<Rightarrow> nat \<Rightarrow> mat4 \<Rightarrow> mat4 \<Rightarrow> Renderable \<Rightarrow> World \<Rightarrow> World" where
  "renderCamera_draw pipeline buffer viewMatrix projectionMatrix renderable w =
     (let modelMatrix = getTransform renderable;
          w1 = emit (WriteBuffer buffer 0 (modelMatrix, viewMatrix, projectionMatrix)) w
      in case createBindGroup pipeline buffer w1 of
           (bindGroup, w2) \<Rightarrow>
             let w3 = emit (SetBindGroup 0 bindGroup) w2;
                 m = mesh renderable;
                 w4 = emit (SetVertexBuffer 0 (vertexBuffer m)) w3
             in (case indexBuffer m of
                   Some ib \<Rightarrow>
                     emit (DrawIndexed (indexCount m)) (emit (SetIndexBuffer ib Uint16) w4)
                 | None \<Rightarrow> emit (Draw (vertexCount m)) w4))"

primrec renderCamera_loop ::
  "nat \<Rightarrow> nat \<Rightarrow> mat4 \<Rightarrow> mat4 \<Rightarrow> Renderable list \<Rightarrow> World \<Rightarrow> World" where
  "renderCamera_loop pipeline buffer v p [] w = w"
| "renderCamera_loop pipeline buffer v p (r # rs) w =
     renderCamera_loop pipeline buffer v p rs (renderCamera_draw pipeline buffer v p r w)"

text \<open>\<open>renderCamera\<close> from the pipeline lookup to \<open>passEncoder.end()\<close>.\<close>

definition renderCamera_pass ::
  "ICamera \<Rightarrow> nat \<Rightarrow> nat \<Rightarrow> string \<Rightarrow> Engine \<times> World \<Rightarrow> Engine \<times> World" where
  "renderCamera_pass camera encoder textureView format s =
     (case s of (e, w) \<Rightarrow>
        let pipelineKey = ''basic_'' @ format
        in case getOrCreate createRenderPipeline pipelineKey
                  (createRenderPipelineDescriptor format) (pipelines e) w of
             (pipeline, cache, w1) \<Rightarrow>
               let e1 = e\<lparr>pipelines := cache\<rparr>
               in case (case uniformBuffer e1 of
                          Some b \<Rightarrow> (b, e1, w1)
                        | None \<Rightarrow>
                            (case createBuffer (16 * 4 * 3) w1 of
                               (b, w') \<Rightarrow> (b, e1\<lparr>uniformBuffer := Some b\<rparr>, w'))) of
                    (buffer, e2, w2) \<Rightarrow>
                      let w3 = emit (BeginRenderPass encoder textureView) w2;
                          w4 = emit (SetPipeline pipeline) w3;
                          w5 = renderCamera_loop pipeline buffer (getViewMatrix camera)
                                 (getProjectionMatrix camera) (renderables (scene camera)) w4
                      in (e2, emit EndPass w5))"

text \<open>
  \<open>renderCamera\<close>: the resolution of the target, then the pass. An unregistered
  canvas id ends the call after the warning. Neither \<open>renderCamera\<close> nor
  \<open>RenderLoop\<close> has a statement that throws, so neither has an error result.
\<close>

definition renderCamera :: "Frame \<Rightarrow> ICamera \<Rightarrow> nat \<Rightarrow> Engine \<times> World \<Rightarrow> Engine \<times> World" where
  "renderCamera fr camera encoder s =
     (case s of (e, w) \<Rightarrow>
        (case target camera of
          CanvasTarget canvasId \<Rightarrow>
            (case canvasManager fr canvasId of
               None \<Rightarrow> (e, emit (ConsoleWarn (''Canvas context not found: '' @ canvasId)) w)
             | Some canvasContext \<Rightarrow>
                 let texture = getCurrentTexture canvasContext
                 in case createView texture w of
                      (textureView, w1) \<Rightarrow>
                        let format = preferredCanvasFormat (platform fr);
                            w2 = (if perspective camera
                                  then emit (UpdateAspect (texture_width texture)
                                                          (texture_height texture)) w1
                                  else w1)
                        in renderCamera_pass camera encoder textureView format (e, w2))
        | TextureTarget texture w_t h_t \<Rightarrow>
            (case createView texture w of
               (textureView, w1) \<Rightarrow>
                 renderCamera_pass camera encoder textureView
                   (preferredCanvasFormat (platform fr)) (e, w1))))"

text \<open>The loop of \<open>RenderLoop\<close> over the cameras the scene manager yields.\<close>

primrec renderCameras ::
  "Frame \<Rightarrow> ICamera list \<Rightarrow> nat \<Rightarrow> Engine \<times> World \<Rightarrow> Engine \<times> World" where
  "renderCameras fr [] encoder s = s"
| "renderCameras fr (c # cs) encoder s = renderCameras fr cs encoder (renderCamera fr c encoder s)"

definition RenderLoop :: "Frame \<Rightarrow> Engine \<times> World \<Rightarrow> Engine \<times> World" where
  "RenderLoop fr s =
     (case beginFrame (now_beginFrame fr) s of
        (frame, e1, w1) \<Rightarrow>
          (case buildRenderStack fr (e1, w1) of
             (sm, w2) \<Rightarrow>
               (case renderCameras fr (getRenderCameras sm) (commandEncoder frame) (e1, w2) of
                  (e3, w3) \<Rightarrow> (e3, endFrame frame w3))))"

text \<open>A run of the orchestrator: one \<open>RenderLoop\<close> per frame, from a new engine.\<close>

primrec run :: "Frame list \<Rightarrow> Engine \<times> World \<Rightarrow> Engine \<times> World" where
  "run [] s = s"
| "run (fr # frs) s = run frs (RenderLoop fr s)"

text \<open>The delta-times the successive \<open>beginFrame\<close> calls of a run record.\<close>

primrec deltaTimes :: "Frame list \<Rightarrow> Engine \<times> World \<Rightarrow> real list" where
  "deltaTimes [] s = []"
| "deltaTimes (fr # frs) s =
     lastDeltaTime (fst (beginFrame (now_beginFrame fr) s)) # deltaTimes frs (RenderLoop fr s)"

text \<open>The readings of the clock over a run, in the order they are taken.\<close>

definition clock :: "Frame list \<Rightarrow> real list" where
  "clock frs = concat (map (\<lambda>fr. [now_beginFrame fr, now_buildRenderStack fr]) frs)"

section \<open>Observations on a frame\<close>

text \<open>
  The scene manager as the frame's \<open>update\<close> call leaves it, and the cameras it then
  yields to the loop of \<open>RenderLoop\<close>.
\<close>

definition updatedScene :: "Frame \<Rightarrow> Engine \<times> World \<Rightarrow> SceneManager" where
  "updatedScene fr s =
     (case beginFrame (now_beginFrame fr) s of
        (frame, e1, w1) \<Rightarrow> fst (buildRenderStack fr (e1, w1)))"

definition yielded :: "Frame \<Rightarrow> Engine \<times> World \<Rightarrow> ICamera list" where
  "yielded fr s = getRenderCameras (updatedScene fr s)"

text \<open>A camera is resolvable when its target is a texture or a registered canvas.\<close>

definition resolvable :: "Frame \<Rightarrow> ICamera \<Rightarrow> bool" where
  "resolvable fr camera =
     (case target camera of
        CanvasTarget canvasId \<Rightarrow>
          (case canvasManager fr canvasId of None \<Rightarrow> False | Some c \<Rightarrow> True)
      | TextureTarget texture w h \<Rightarrow> True)"

text \<open>The arguments the scene manager's update hook has received.\<close>

fun scene_update :: "call \<Rightarrow> real option" where
  "scene_update (SceneUpdate dt) = Some dt"
| "scene_update _ = None"

definition sceneUpdates :: "call list \<Rightarrow> real list" where
  "sceneUpdates cs = List.map_filter scene_update cs"

text \<open>
  What a frame does for its cameras, as it shows in the call sequence with the
  identities of the created objects left out: the warning for a skipped camera; for a
  rendered one the view created on the texture of its target, the aspect update, the
  pass opened on the frame's command encoder, and for every renderable the three
  matrices written, the vertex buffer set and the draw, up to the end of the pass.
\<close>

datatype step =
    Skipped string
  | Targeted nat
  | AspectUpdated int int
  | PassBegun nat
  | Written "mat4 \<times> mat4 \<times> mat4"
  | VertexBufferSet nat
  | IndexBufferSet nat GPUIndexFormat
  | DrawnIndexed nat
  | Drawn nat
  | PassEnded

fun step_of :: "call \<Rightarrow> step option" where
  "step_of (ConsoleWarn m) = Some (Skipped m)"
| "step_of (CreateView t v) = Some (Targeted t)"
| "step_of (UpdateAspect w h) = Some (AspectUpdated w h)"
| "step_of (BeginRenderPass enc v) = Some (PassBegun enc)"
| "step_of (WriteBuffer b off d) = Some (Written d)"
| "step_of (SetVertexBuffer slot vb) = Some (VertexBufferSet vb)"
| "step_of (SetIndexBuffer ib f) = Some (IndexBufferSet ib f)"
| "step_of (DrawIndexed n) = Some (DrawnIndexed n)"
| "step_of (Draw n) = Some (Drawn n)"
| "step_of EndPass = Some PassEnded"
| "step_of _ = None"

definition steps :: "call list \<Rightarrow> step list" where
  "steps cs = List.map_filter step_of cs"

text \<open>
  The steps one camera is due, from the camera alone: its target, its matrices and
  the renderables of its scene.
\<close>

definition renderable_steps :: "mat4 \<Rightarrow> mat4 \<Rightarrow> Renderable \<Rightarrow> step list" where
  "renderable_steps v p r =
     [Written (getTransform r, v, p), VertexBufferSet (vertexBuffer (mesh r))] @
     (case indexBuffer (mesh r) of
        Some ib \<Rightarrow> [IndexBufferSet ib Uint16, DrawnIndexed (indexCount (mesh r))]
      | None \<Rightarrow> [Drawn (vertexCount (mesh r))])"

definition pass_steps :: "nat \<Rightarrow> ICamera \<Rightarrow> step list" where
  "pass_steps enc camera =
     PassBegun enc #
     concat (map (renderable_steps (getViewMatrix camera) (getProjectionMatrix camera))
               (renderables (scene camera))) @
     [PassEnded]"

definition camera_steps :: "Frame \<Rightarrow> nat \<Rightarrow> ICamera \<Rightarrow> step list" where
  "camera_steps fr enc camera =
     (case target camera of
        CanvasTarget canvasId \<Rightarrow>
          (case canvasManager fr canvasId of
             None \<Rightarrow> [Skipped (''Canvas context not found: '' @ canvasId)]
           | Some c \<Rightarrow>
               Targeted (texture_id (getCurrentTexture c)) #
               (if perspective camera
                then [AspectUpdated (texture_width (getCurrentTexture c))
                                    (texture_height (getCurrentTexture c))]
                else []) @
               pass_steps enc camera)
      | TextureTarget texture w h \<Rightarrow> Targeted (texture_id texture) # pass_steps enc camera)"

text \<open>
  A world with the warnings removed from its call sequence, and a frame whose scene
  manager never holds an unresolvable camera.
\<close>

fun is_warning :: "call \<Rightarrow> bool" where
  "is_warning (ConsoleWarn m) = True"
| "is_warning _ = False"

definition silence :: "World \<Rightarrow> World" where
  "silence w = w\<lparr>calls := filter (\<lambda>c. \<not> is_warning c) (calls w)\<rparr>"

definition without_unresolvable :: "Frame \<Rightarrow> Frame" where
  "without_unresolvable fr =
     fr\<lparr>update := (\<lambda>dt sm. (update fr dt sm)\<lparr>cameras :=
                     filter (resolvable fr) (cameras (update fr dt sm))\<rparr>)\<rparr>"

text \<open>The same world with an earlier history of calls before its own.\<close>

definition relog :: "call list \<Rightarrow> World \<Rightarrow> World" where
  "relog l w = w\<lparr>calls := l @ calls w\<rparr>"

text \<open>
  The draw encoding: the calls that select an index buffer or draw, and the draw
  encoding one renderable is expected to get.
\<close>

fun is_draw :: "call \<Rightarrow> bool" where
  "is_draw (SetIndexBuffer ib f) = True"
| "is_draw (DrawIndexed n) = True"
| "is_draw (Draw n) = True"
| "is_draw _ = False"

definition draw_of :: "Renderable \<Rightarrow> call list" where
  "draw_of r =
     (case indexBuffer (mesh r) of
        Some ib \<Rightarrow> [SetIndexBuffer ib Uint16, DrawIndexed (indexCount (mesh r))]
      | None \<Rightarrow> [Draw (vertexCount (mesh r))])"

definition camera_draws :: "ICamera \<Rightarrow> call list" where
  "camera_draws camera = concat (map draw_of (renderables (scene camera)))"

text \<open>
  The life of the uniform buffer in a call sequence: buffer creations, opened render
  passes, buffer writes, bind groups and draws, in order.
\<close>

fun uniform_call :: "call \<Rightarrow> bool" where
  "uniform_call (CreateBuffer b n) = True"
| "uniform_call (BeginRenderPass enc v) = True"
| "uniform_call (WriteBuffer b off d) = True"
| "uniform_call (CreateBindGroup g p b) = True"
| "uniform_call (DrawIndexed n) = True"
| "uniform_call (Draw n) = True"
| "uniform_call _ = False"

definition uniform :: "call list \<Rightarrow> call list" where
  "uniform cs = filter uniform_call cs"

fun is_pass :: "call \<Rightarrow> bool" where
  "is_pass (BeginRenderPass enc v) = True"
| "is_pass _ = False"

fun writes :: "nat \<Rightarrow> call \<Rightarrow> bool" where
  "writes b (WriteBuffer b' off d) = (b' = b \<and> off = 0)"
| "writes b _ = False"

fun binds :: "nat \<Rightarrow> call \<Rightarrow> bool" where
  "binds b (CreateBindGroup g p b') = (b' = b)"
| "binds b _ = False"

fun draws :: "call \<Rightarrow> bool" where
  "draws (DrawIndexed n) = True"
| "draws (Draw n) = True"
| "draws _ = False"

text \<open>
  \<open>write_then_draw b cs\<close>: the sequence consists of opened passes and of triples
  write to \<open>b\<close>, bind group on \<open>b\<close>, draw; so every write is to \<open>b\<close> and is followed by
  its draw before the next write, and no buffer is created.
\<close>

fun write_then_draw :: "nat \<Rightarrow> call list \<Rightarrow> bool" where
  "write_then_draw b [] = True"
| "write_then_draw b (x # cs) =
     (if is_pass x then write_then_draw b cs
      else (case cs of
              y # z # rest \<Rightarrow> writes b x \<and> binds b y \<and> draws z \<and> write_then_draw b rest
            | _ \<Rightarrow> False))"

text \<open>
  \<open>uniform_ok ub cs\<close>: with no buffer held, nothing of the above has happened; with
  buffer \<open>b\<close> held, the sequence starts with the one creation of \<open>b\<close>, of 192 bytes, at
  the first render pass, and goes on as \<open>write_then_draw b\<close>.
\<close>

fun uniform_ok :: "nat option \<Rightarrow> call list \<Rightarrow> bool" where
  "uniform_ok None cs = (cs = [])"
| "uniform_ok (Some b) [] = False"
| "uniform_ok (Some b) [c] = False"
| "uniform_ok (Some b) (c # c' # cs) =
     (c = CreateBuffer b 192 \<and> is_pass c' \<and> write_then_draw b cs)"

text \<open>The calls of the renderable loop that concern the uniform buffer.\<close>

definition draw_call :: "Renderable \<Rightarrow> call" where
  "draw_call r =
     (case indexBuffer (mesh r) of
        Some ib \<Rightarrow> DrawIndexed (indexCount (mesh r))
      | None \<Rightarrow> Draw (vertexCount (mesh r)))"

primrec loop_uniform ::
  "nat \<Rightarrow> nat \<Rightarrow> mat4 \<Rightarrow> mat4 \<Rightarrow> Renderable list \<Rightarrow> nat \<Rightarrow> call list" where
  "loop_uniform p b v pr [] n = []"
| "loop_uniform p b v pr (r # rs) n =
     [WriteBuffer b 0 (getTransform r, v, pr), CreateBindGroup n p b, draw_call r]
     @ loop_uniform p b v pr rs (Suc n)"

section \<open>A concrete run\<close>

text \<open>
  One registered surface \<open>main\<close>, displayed at 800 by 600 on a screen of pixel
  density 2, as its constructor leaves it; an indexed quad of 6 indices and a triangle of 3
  vertices without index buffer. In the first frame the scene holds a camera of
  priority 2 on \<open>main\<close>, a camera of priority 1 on the unregistered surface \<open>gone\<close> and
  a disabled camera; in the second frame a camera on an off-screen texture. The clock
  reads 1000 and 1001 in the first frame, 1016 and 1017 in the second.
\<close>

definition demo_platform :: Platform where
  "demo_platform = \<lparr>devicePixelRatio = 2, preferredCanvasFormat = ''bgra8unorm''\<rparr>"

text \<open>The doubles written \<open>0.7\<close> and \<open>1.2\<close>.\<close>

definition demo_ratio_0_7 :: real where
  "demo_ratio_0_7 = 3152519739159347 / 4503599627370496"

definition demo_ratio_1_2 :: real where
  "demo_ratio_1_2 = 5404319552844595 / 4503599627370496"

definition demo_context :: GPUCanvasContext where
  "demo_context =
     \<lparr>currentTexture = \<lparr>texture_id = 100, texture_width = 1600, texture_height = 1200\<rparr>\<rparr>"

definition demo_canvas :: HTMLCanvasElement where
  "demo_canvas =
     \<lparr>canvas_width = 1600, canvas_height = 1200, clientWidth = 800, clientHeight = 600,
      webgpu = Some demo_context\<rparr>"

definition demo_surface :: CanvasContext where
  "demo_surface =
     \<lparr>gpuContext = demo_context, canvas = demo_canvas,
      size_c = \<lparr>width = Finite 1600, height = Finite 1200\<rparr>, pixelRatio_c = 1,
      issued = [ContextConfigure ''bgra8unorm'']\<rparr>"

definition demo_frame :: "real \<Rightarrow> real \<Rightarrow> ICamera list \<Rightarrow> Frame" where
  "demo_frame t1 t2 cams =
     \<lparr>now_beginFrame = t1, now_buildRenderStack = t2,
      platform = demo_platform,
      canvasManager = [''main'' \<mapsto> demo_surface],
      sceneManager = \<lparr>cameras = cams\<rparr>,
      update = (\<lambda>dt sm. sm)\<rparr>"

definition demo_camera :: "RenderTarget \<Rightarrow> bool \<Rightarrow> real \<Rightarrow> Renderable list \<Rightarrow> ICamera" where
  "demo_camera t on k rs =
     \<lparr>scene = \<lparr>renderables = rs\<rparr>, target = t, enabled = on, order = k,
      getViewMatrix = [], getProjectionMatrix = [], perspective = True\<rparr>"

definition demo_quad :: Renderable where
  "demo_quad =
     \<lparr>getTransform = [],
      mesh = \<lparr>vertexBuffer = 50, indexBuffer = Some 51, indexCount = 6, vertexCount = 4\<rparr>\<rparr>"

definition demo_triangle :: Renderable where
  "demo_triangle =
     \<lparr>getTransform = [],
      mesh = \<lparr>vertexBuffer = 52, indexBuffer = None, indexCount = 0, vertexCount = 3\<rparr>\<rparr>"

definition demo_first :: Frame where
  "demo_first =
     demo_frame 1000 1001
       [demo_camera (CanvasTarget ''main'') True 2 [demo_quad, demo_triangle],
        demo_camera (CanvasTarget ''main'') False 0 [demo_quad],
        demo_camera (CanvasTarget ''gone'') True 1 [demo_quad]]"

definition demo_second :: Frame where
  "demo_second =
     demo_frame 1016 1017
       [demo_camera
          (TextureTarget \<lparr>texture_id = 200, texture_width = 256, texture_height = 256\<rparr> 256 256)
          True 0 [demo_triangle]]"

text \<open>
  A frame for the order of the cameras: in the scene, in this order, a camera of
  priority 2 on \<open>main\<close> drawing the quad, one of priority 1 on an off-screen texture
  drawing the triangle, one of priority 1 on \<open>main\<close> drawing triangle and quad, a
  disabled one of priority 0, and one of priority 3 on the unregistered \<open>gone\<close>.
\<close>

definition demo_priorities :: Frame where
  "demo_priorities =
     demo_frame 1000 1001
       [demo_camera (CanvasTarget ''main'') True 2 [demo_quad],
        demo_camera
          (TextureTarget \<lparr>texture_id = 200, texture_width = 256, texture_height = 256\<rparr> 256 256)
          True 1 [demo_triangle],
        demo_camera (CanvasTarget ''main'') True 1 [demo_triangle, demo_quad],
        demo_camera (CanvasTarget ''main'') False 0 [demo_quad],
        demo_camera (CanvasTarget ''gone'') True 3 [demo_quad]]"

definition demo_start :: "Engine \<times> World" where
  "demo_start = (Engine_new, \<lparr>nextHandle = 0, calls = []\<rparr>)"

section \<open>Properties\<close>

subsection \<open>The surface resource manager\<close>

lemmas double_defs = number_times_def round_to_double_def exponent_def pow2_def
  round_half_even_def Let_def bits.simps

lemma strict_equal_eq: "strict_equal a b \<Longrightarrow> a = b"
  by (simp add: strict_equal_def)

lemma strict_equal_Finite: "strict_equal a (Finite x) \<longleftrightarrow> a = Finite x"
  by (auto simp: strict_equal_def)

lemma round_to_double_not_NaN: "round_to_double x \<noteq> NaN"
  by (simp add: round_to_double_def Let_def)

lemma Math_floor_times_not_NaN: "Math_floor (number_times a b) \<noteq> NaN"
  using round_to_double_not_NaN [of "a * b"]
  by (cases "round_to_double (a * b)") (simp_all add: number_times_def)

lemma strict_equal_floor_times:
  "strict_equal a (Math_floor (number_times x y)) \<longleftrightarrow> a = Math_floor (number_times x y)"
  using Math_floor_times_not_NaN [of x y] by (auto simp: strict_equal_def)

lemma same_size_effectiveSize:
  "same_size s (effectiveSize win cv) \<longleftrightarrow> s = effectiveSize win cv"
  by (cases s) (auto simp: same_size_def effectiveSize_def strict_equal_floor_times)

lemma same_size_layoutSize: "same_size s (layoutSize l) \<longleftrightarrow> s = layoutSize l"
  by (cases s) (auto simp: same_size_def layoutSize_def Let_def strict_equal_floor_times)

lemma updateSize_unfold:
  "updateSize win c =
     (if same_size (size_c c) (effectiveSize win (canvas c)) then c
      else resize (width (effectiveSize win (canvas c))) (height (effectiveSize win (canvas c))) c)"
  by (simp add: updateSize_def same_size_def effectiveSize_def Let_def)

lemma updateSize_size: "size_c (updateSize win c) = effectiveSize win (canvas c)"
proof (cases "same_size (size_c c) (effectiveSize win (canvas c))")
  case True
  then show ?thesis
    by (simp add: updateSize_unfold same_size_effectiveSize)
next
  case False
  have "\<lparr>width = width s, height = height s\<rparr> = s" for s :: Size
    by (cases s) simp
  then show ?thesis
    using False by (simp add: updateSize_unfold resize_def)
qed

lemma effectiveSize_relayout:
  "effectiveSize (windowOf win l) (canvas (relayout l c)) = layoutSize l"
  by (simp add: effectiveSize_def layoutSize_def relayout_def windowOf_def pixelRatio_def
      Let_def)

lemma updateSize_at_size: "size_c (updateSize_at win l c) = layoutSize l"
  by (simp add: updateSize_at_def updateSize_size effectiveSize_relayout)

lemma size_c_relayout: "size_c (relayout l c) = size_c c"
  by (simp add: relayout_def)

lemma issued_relayout: "issued (relayout l c) = issued c"
  by (simp add: relayout_def)

lemma updateSize_at_reconfigurations:
  "reconfigurations (updateSize_at win l c) =
     (if same_size (size_c c) (layoutSize l) then 0 else 1) + reconfigurations c"
  by (simp add: updateSize_at_def updateSize_unfold effectiveSize_relayout size_c_relayout
      issued_relayout resize_def reconfigurations_def)

lemma updateSizes_size:
  "ls \<noteq> [] \<Longrightarrow> size_c (updateSizes win ls c) = layoutSize (last ls)"
  by (induction ls arbitrary: c) (auto simp: updateSize_at_size)

lemma updateSizes_never_configure:
  "filter is_configure (issued (updateSizes win ls c)) = filter is_configure (issued c)"
proof (induction ls arbitrary: c)
  case Nil
  show ?case by simp
next
  case (Cons l ls)
  have "filter is_configure (issued (updateSize_at win l c)) = filter is_configure (issued c)"
    by (simp add: updateSize_at_def updateSize_unfold relayout_def resize_def)
  then show ?case
    by (simp add: Cons.IH)
qed

lemma reflect_valid_dimension:
  "valid_dimension v \<Longrightarrow> Finite (of_int (reflect_dimension d v)) = v"
proof (cases v)
  case (Finite x)
  assume "valid_dimension v"
  then have int: "of_int \<lfloor>x\<rfloor> = x" and lo: "0 \<le> x" and hi: "x \<le> 2147483647"
    by (simp_all add: Finite)
  have "0 \<le> \<lfloor>x\<rfloor>" and "\<lfloor>x\<rfloor> \<le> 2147483647"
    using lo hi by (simp_all add: floor_le_iff)
  then have "to_unsigned_long v = \<lfloor>x\<rfloor>"
    using lo by (simp add: Finite)
  then show ?thesis
    using \<open>\<lfloor>x\<rfloor> \<le> 2147483647\<close> int by (simp add: reflect_dimension_def Finite)
qed simp_all

lemma valid_dimension_not_NaN: "valid_dimension v \<Longrightarrow> v \<noteq> NaN"
  by (cases v) simp_all

lemma resize_matches:
  "valid_dimension w \<Longrightarrow> valid_dimension h \<Longrightarrow> size_matches_canvas (resize w h c)"
  by (simp add: size_matches_canvas_def resize_def strict_equal_def reflect_valid_dimension
      valid_dimension_not_NaN)

subsection \<open>State of the engine across a frame\<close>

lemma emit_simps [simp]:
  "calls (emit c w) = calls w @ [c]" "nextHandle (emit c w) = nextHandle w"
  by (simp_all add: emit_def)

lemma create_simps [simp]:
  "fst (create mk w) = nextHandle w"
  "calls (snd (create mk w)) = calls w @ [mk (nextHandle w)]"
  "nextHandle (snd (create mk w)) = Suc (nextHandle w)"
  by (simp_all add: create_def)

lemmas creators =
  createCommandEncoder_def createView_def createShaderModule_def createRenderPipeline_def
  createBuffer_def createBindGroup_def

lemma renderCamera_pass_lastFrameTime:
  "lastFrameTime (fst (renderCamera_pass cam enc view fmt (e, w))) = lastFrameTime e"
  by (simp add: renderCamera_pass_def getOrCreate_def split_beta Let_def split: option.split)

lemma renderCamera_lastFrameTime:
  "lastFrameTime (fst (renderCamera fr cam enc (e, w))) = lastFrameTime e"
  by (simp add: renderCamera_def renderCamera_pass_lastFrameTime split_beta Let_def
      split: RenderTarget.split option.split)

lemma renderCameras_lastFrameTime:
  "lastFrameTime (fst (renderCameras fr cams enc s)) = lastFrameTime (fst s)"
proof (induction cams arbitrary: s)
  case Nil
  show ?case by simp
next
  case (Cons c cs)
  show ?case
    using renderCamera_lastFrameTime [of fr c enc "fst s" "snd s"]
    by (simp add: Cons.IH)
qed

lemma RenderLoop_lastFrameTime:
  "lastFrameTime (fst (RenderLoop fr s)) = now_beginFrame fr"
  by (simp add: RenderLoop_def beginFrame_def split_beta Let_def renderCameras_lastFrameTime)

lemma beginFrame_delta:
  "lastDeltaTime (fst (beginFrame now s)) =
     (if lastFrameTime (fst s) = 0 then 0 else (now - lastFrameTime (fst s)) / 1000)"
  by (simp add: beginFrame_def split_beta Let_def)

lemma clock_Cons: "clock (fr # frs) = now_beginFrame fr # now_buildRenderStack fr # clock frs"
  by (simp add: clock_def)

lemma deltaTimes_nonneg:
  "sorted (clock frs) \<Longrightarrow>
   lastFrameTime (fst s) = 0 \<or> (\<forall>t \<in> set (clock frs). lastFrameTime (fst s) \<le> t) \<Longrightarrow>
   \<forall>d \<in> set (deltaTimes frs s). 0 \<le> d"
proof (induction frs arbitrary: s)
  case Nil
  show ?case by simp
next
  case (Cons fr frs)
  obtain e w where s: "s = (e, w)" by (cases s)
  have sorted_rest: "sorted (clock frs)"
    and later: "\<forall>t \<in> set (clock frs). now_beginFrame fr \<le> t"
    using Cons.prems(1) by (auto simp: clock_Cons)
  have first: "0 \<le> lastDeltaTime (fst (beginFrame (now_beginFrame fr) s))"
    using Cons.prems(2) by (auto simp: s beginFrame_delta clock_Cons)
  have rest: "\<forall>d \<in> set (deltaTimes frs (RenderLoop fr s)). 0 \<le> d"
    by (rule Cons.IH [OF sorted_rest]) (simp add: RenderLoop_lastFrameTime later)
  show ?case using first rest by simp
qed

subsection \<open>The call sequence does not depend on earlier calls\<close>

lemma relog_simps [simp]:
  "calls (relog l w) = l @ calls w" "nextHandle (relog l w) = nextHandle w"
  by (simp_all add: relog_def)

lemma relog_self: "relog (calls w) (w\<lparr>calls := []\<rparr>) = w"
  by (simp add: relog_def)

lemma emit_relog: "emit c (relog l w) = relog l (emit c w)"
  by (simp add: emit_def relog_def)

lemma create_relog: "create mk (relog l w) = (nextHandle w, relog l (snd (create mk w)))"
  by (simp add: create_def relog_def)

lemma create_pair: "create mk w = (nextHandle w, snd (create mk w))"
  by (simp add: create_def)

lemma getOrCreate_relog:
  "getOrCreate createRenderPipeline k (createRenderPipelineDescriptor f) cache (relog l w) =
     (case getOrCreate createRenderPipeline k (createRenderPipelineDescriptor f) cache w of
        (p, cache', w') \<Rightarrow> (p, cache', relog l w'))"
  by (simp add: getOrCreate_def createRenderPipelineDescriptor_def creators create_relog
      split_beta split: option.split)

lemma renderCamera_draw_relog:
  "renderCamera_draw p b v pr r (relog l w) = relog l (renderCamera_draw p b v pr r w)"
  by (simp add: renderCamera_draw_def creators create_relog emit_relog split_beta Let_def
      split: option.split)

lemma renderCamera_loop_relog:
  "renderCamera_loop p b v pr rs (relog l w) = relog l (renderCamera_loop p b v pr rs w)"
  by (induction rs arbitrary: w) (simp_all add: renderCamera_draw_relog)

lemma renderCamera_pass_relog:
  "renderCamera_pass cam enc view fmt (e, relog l w) =
     apsnd (relog l) (renderCamera_pass cam enc view fmt (e, w))"
  by (simp add: renderCamera_pass_def getOrCreate_relog creators create_relog emit_relog
      renderCamera_loop_relog split_beta Let_def split: option.split)

lemma renderCamera_relog:
  "renderCamera fr cam enc (e, relog l w) = apsnd (relog l) (renderCamera fr cam enc (e, w))"
  by (simp add: renderCamera_def renderCamera_pass_relog creators create_relog emit_relog
      split_beta Let_def split: option.split RenderTarget.split)

lemma renderCameras_relog:
  "renderCameras fr cams enc (e, relog l w) = apsnd (relog l) (renderCameras fr cams enc (e, w))"
proof (induction cams arbitrary: e w)
  case Nil
  show ?case by simp
next
  case (Cons c cs)
  obtain e' w' where step: "renderCamera fr c enc (e, w) = (e', w')"
    by (cases "renderCamera fr c enc (e, w)")
  show ?case by (simp add: renderCamera_relog step Cons.IH)
qed

lemma renderCameras_calls:
  "renderCameras fr cams enc (e, w) =
     apsnd (relog (calls w)) (renderCameras fr cams enc (e, w\<lparr>calls := []\<rparr>))"
  using renderCameras_relog [of fr cams enc e "calls w" "w\<lparr>calls := []\<rparr>"]
  by (simp add: relog_self)

lemma renderCamera_skip:
  "\<not> resolvable fr cam \<Longrightarrow>
   renderCamera fr cam enc (e, w) =
     (e, emit (ConsoleWarn (''Canvas context not found: '' @
        (case target cam of CanvasTarget canvasId \<Rightarrow> canvasId | TextureTarget t a b \<Rightarrow> []))) w)"
  by (auto simp: resolvable_def renderCamera_def split: RenderTarget.splits option.splits)

subsection \<open>Skipping unresolvable cameras\<close>

lemma silence_relog: "silence (relog l w) = relog (filter (\<lambda>c. \<not> is_warning c) l) (silence w)"
  by (simp add: silence_def relog_def)

lemma silence_emit_warning: "silence (emit (ConsoleWarn m) w) = silence w"
  by (simp add: silence_def emit_def)

lemma silence_emit: "\<not> is_warning c \<Longrightarrow> silence (emit c w) = emit c (silence w)"
  by (simp add: silence_def emit_def)

lemma renderCameras_after_warning:
  "apsnd silence (renderCameras fr cams enc (e, emit (ConsoleWarn m) w)) =
   apsnd silence (renderCameras fr cams enc (e, w))"
proof -
  have warned: "emit (ConsoleWarn m) w = relog (calls w @ [ConsoleWarn m]) (w\<lparr>calls := []\<rparr>)"
    by (simp add: emit_def relog_def)
  have "renderCameras fr cams enc (e, emit (ConsoleWarn m) w) =
      apsnd (relog (calls w @ [ConsoleWarn m])) (renderCameras fr cams enc (e, w\<lparr>calls := []\<rparr>))"
    unfolding warned by (rule renderCameras_relog)
  moreover have "renderCameras fr cams enc (e, w) =
      apsnd (relog (calls w)) (renderCameras fr cams enc (e, w\<lparr>calls := []\<rparr>))"
    by (rule renderCameras_calls)
  ultimately show ?thesis
    by (simp add: apsnd_def map_prod_def split_beta silence_relog)
qed

lemma renderCameras_skip_unresolvable:
  "apsnd silence (renderCameras fr cams enc s) =
   apsnd silence (renderCameras fr (filter (resolvable fr) cams) enc s)"
proof (induction cams arbitrary: s)
  case Nil
  show ?case by simp
next
  case (Cons c cs)
  obtain e w where s: "s = (e, w)" by (cases s)
  show ?case
  proof (cases "resolvable fr c")
    case True
    then show ?thesis by (simp add: Cons.IH)
  next
    case False
    then show ?thesis
      by (simp add: s renderCamera_skip Cons.IH [symmetric] renderCameras_after_warning)
  qed
qed

lemma renderCamera_frame_cong:
  "canvasManager fr' = canvasManager fr \<Longrightarrow> platform fr' = platform fr \<Longrightarrow>
   renderCamera fr' cam enc s = renderCamera fr cam enc s"
  by (cases s) (simp add: renderCamera_def Let_def split: RenderTarget.split option.split)

lemma renderCameras_frame_cong:
  "canvasManager fr' = canvasManager fr \<Longrightarrow> platform fr' = platform fr \<Longrightarrow>
   renderCameras fr' cams enc s = renderCameras fr cams enc s"
  by (induction cams arbitrary: s) (simp_all add: renderCamera_frame_cong [of fr' fr])

lemma getRenderCameras_filter:
  "getRenderCameras (sm\<lparr>cameras := filter P (cameras sm)\<rparr>) = filter P (getRenderCameras sm)"
proof -
  have "filter enabled (filter P (cameras sm)) = filter P (filter enabled (cameras sm))"
    by (simp add: conj_commute)
  then show ?thesis by (simp add: getRenderCameras_def filter_sort)
qed

lemma silence_endFrame: "silence (endFrame frame w) = endFrame frame (silence w)"
  by (simp add: endFrame_def silence_emit)

lemma RenderLoop_skip_unresolvable:
  "fst (RenderLoop fr s) = fst (RenderLoop (without_unresolvable fr) s) \<and>
   silence (snd (RenderLoop fr s)) = silence (snd (RenderLoop (without_unresolvable fr) s))"
proof -
  obtain frame e1 w1 where bf: "beginFrame (now_beginFrame fr) s = (frame, e1, w1)"
    by (cases "beginFrame (now_beginFrame fr) s")
  obtain sm w2 where bs: "buildRenderStack fr (e1, w1) = (sm, w2)"
    by (cases "buildRenderStack fr (e1, w1)")
  have bs': "buildRenderStack (without_unresolvable fr) (e1, w1) =
      (sm\<lparr>cameras := filter (resolvable fr) (cameras sm)\<rparr>, w2)"
    using bs by (auto simp: buildRenderStack_def without_unresolvable_def Let_def)
  have now': "now_beginFrame (without_unresolvable fr) = now_beginFrame fr"
    by (simp add: without_unresolvable_def)
  have loop: "renderCameras (without_unresolvable fr) cams enc t = renderCameras fr cams enc t"
    for cams enc t
    by (rule renderCameras_frame_cong) (simp_all add: without_unresolvable_def)
  obtain e3 w3 where r: "renderCameras fr (getRenderCameras sm) (commandEncoder frame) (e1, w2)
      = (e3, w3)"
    by (cases "renderCameras fr (getRenderCameras sm) (commandEncoder frame) (e1, w2)")
  obtain e3' w3' where r': "renderCameras fr (filter (resolvable fr) (getRenderCameras sm))
      (commandEncoder frame) (e1, w2) = (e3', w3')"
    by (cases "renderCameras fr (filter (resolvable fr) (getRenderCameras sm))
      (commandEncoder frame) (e1, w2)")
  have same: "e3 = e3' \<and> silence w3 = silence w3'"
    using renderCameras_skip_unresolvable [of fr "getRenderCameras sm" "commandEncoder frame"
        "(e1, w2)"]
    by (simp add: r r')
  have full: "RenderLoop fr s = (e3, endFrame frame w3)"
    by (simp add: RenderLoop_def bf bs r)
  have less: "RenderLoop (without_unresolvable fr) s = (e3', endFrame frame w3')"
    by (simp add: RenderLoop_def now' bf bs' loop getRenderCameras_filter r')
  show ?thesis
    by (simp add: full less silence_endFrame same)
qed

lemma endFrame_calls:
  "calls (endFrame frame w) = calls w @ [Finish (commandEncoder frame), Submit (commandEncoder frame)]"
  by (simp add: endFrame_def)

lemma beginFrame_encoder: "commandEncoder (fst (beginFrame now s)) = nextHandle (snd s)"
  by (cases s) (simp add: beginFrame_def createCommandEncoder_def split_beta Let_def)

lemma RenderLoop_submits:
  "\<exists>pre. calls (snd (RenderLoop fr s)) =
     pre @ [Finish (nextHandle (snd s)), Submit (nextHandle (snd s))]"
  using beginFrame_encoder [of "now_beginFrame fr" s]
  by (simp add: RenderLoop_def split_beta endFrame_calls)

subsection \<open>Calls of the pipeline lookup and of the renderable loop\<close>

lemma getOrCreate_calls:
  "calls (snd (snd (getOrCreate createRenderPipeline k (createRenderPipelineDescriptor f) cache w))) =
     calls w @
     (case cache k of
        Some p \<Rightarrow> []
      | None \<Rightarrow>
          [CreateShaderModule (nextHandle w), CreateShaderModule (Suc (nextHandle w)),
           CreateRenderPipeline (Suc (Suc (nextHandle w)))
             \<lparr>vertex_module = nextHandle w, fragment_module = Suc (nextHandle w),
              target_format = f\<rparr>])"
  by (simp add: getOrCreate_def createRenderPipelineDescriptor_def creators split_beta
      split: option.split)

lemma renderCamera_draw_calls:
  "calls (renderCamera_draw p b v pr r w) =
     calls w @ [WriteBuffer b 0 (getTransform r, v, pr), CreateBindGroup (nextHandle w) p b,
                SetBindGroup 0 (nextHandle w), SetVertexBuffer 0 (vertexBuffer (mesh r))]
             @ draw_of r"
  by (simp add: renderCamera_draw_def createBindGroup_def draw_of_def split_beta Let_def
      split: option.split)

lemma renderCamera_loop_draws:
  "filter is_draw (calls (renderCamera_loop p b v pr rs w)) =
     filter is_draw (calls w) @ concat (map draw_of rs)"
proof (induction rs arbitrary: w)
  case Nil
  show ?case by simp
next
  case (Cons r rs)
  have "filter is_draw (draw_of r) = draw_of r"
    by (simp add: draw_of_def split: option.split)
  then show ?case
    by (simp add: Cons.IH renderCamera_draw_calls)
qed

lemma renderCamera_pass_draws:
  "filter is_draw (calls (snd (renderCamera_pass cam enc view fmt (e, w)))) =
     filter is_draw (calls w) @ camera_draws cam"
  by (simp add: renderCamera_pass_def camera_draws_def renderCamera_loop_draws createBuffer_def
      getOrCreate_calls split_beta Let_def split: option.split)

lemma renderCamera_draws:
  "filter is_draw (calls (snd (renderCamera fr cam enc (e, w)))) =
     filter is_draw (calls w) @ (if resolvable fr cam then camera_draws cam else [])"
  by (simp add: renderCamera_def resolvable_def renderCamera_pass_draws createView_def
      split_beta Let_def split: option.split RenderTarget.split)

lemma renderCameras_draws:
  "filter is_draw (calls (snd (renderCameras fr cams enc s))) =
     filter is_draw (calls (snd s)) @ concat (map camera_draws (filter (resolvable fr) cams))"
proof (induction cams arbitrary: s)
  case Nil
  show ?case by simp
next
  case (Cons c cs)
  show ?case
    using renderCamera_draws [of fr c enc "fst s" "snd s"]
    by (simp add: Cons.IH)
qed

lemma RenderLoop_unfold:
  "RenderLoop fr s =
     (case beginFrame (now_beginFrame fr) s of
        (frame, e1, w1) \<Rightarrow>
          (case renderCameras fr (yielded fr s) (commandEncoder frame)
                  (e1, snd (buildRenderStack fr (e1, w1))) of
             (e3, w3) \<Rightarrow> (e3, endFrame frame w3)))"
  by (simp add: RenderLoop_def yielded_def updatedScene_def split_beta)

lemma beginFrame_calls:
  "calls (snd (snd (beginFrame now s))) = calls (snd s) @ [CreateCommandEncoder (nextHandle (snd s))]"
  by (cases s) (simp add: beginFrame_def createCommandEncoder_def split_beta Let_def)

lemma buildRenderStack_calls:
  "\<exists>dt. calls (snd (buildRenderStack fr (e, w))) = calls w @ [SceneUpdate dt]"
  by (simp add: buildRenderStack_def Let_def)

lemma RenderLoop_draws:
  "filter is_draw (calls (snd (RenderLoop fr s))) =
     filter is_draw (calls (snd s)) @
     concat (map camera_draws (filter (resolvable fr) (yielded fr s)))"
proof -
  obtain frame e1 w1 where bf: "beginFrame (now_beginFrame fr) s = (frame, e1, w1)"
    by (cases "beginFrame (now_beginFrame fr) s")
  obtain dt where bs: "calls (snd (buildRenderStack fr (e1, w1))) = calls w1 @ [SceneUpdate dt]"
    using buildRenderStack_calls by blast
  have w1: "calls w1 = calls (snd s) @ [CreateCommandEncoder (nextHandle (snd s))]"
    using beginFrame_calls [of "now_beginFrame fr" s] by (simp add: bf)
  show ?thesis
    by (simp add: RenderLoop_unfold bf split_beta endFrame_calls renderCameras_draws bs w1)
qed

lemma steps_simps [simp]:
  "steps [] = []" "steps (xs @ ys) = steps xs @ steps ys"
  "steps (c # cs) = (case step_of c of None \<Rightarrow> steps cs | Some x \<Rightarrow> x # steps cs)"
  by (simp_all add: steps_def List.map_filter_def split: option.split)

lemma renderCamera_draw_steps:
  "steps (calls (renderCamera_draw p b v pr r w)) = steps (calls w) @ renderable_steps v pr r"
  by (simp add: renderCamera_draw_calls draw_of_def renderable_steps_def split: option.split)

lemma renderCamera_loop_steps:
  "steps (calls (renderCamera_loop p b v pr rs w)) =
     steps (calls w) @ concat (map (renderable_steps v pr) rs)"
  by (induction rs arbitrary: w) (simp_all add: renderCamera_draw_steps)

lemma getOrCreate_steps:
  "steps (calls (snd (snd (getOrCreate createRenderPipeline k
      (createRenderPipelineDescriptor f) cache w)))) = steps (calls w)"
  by (simp add: getOrCreate_calls split: option.split)

lemma renderCamera_pass_steps:
  "steps (calls (snd (renderCamera_pass cam enc view fmt (e, w)))) =
     steps (calls w) @ pass_steps enc cam"
  by (simp add: renderCamera_pass_def renderCamera_loop_steps getOrCreate_steps
      createBuffer_def pass_steps_def split_beta Let_def split: option.split)

lemma renderCamera_steps:
  "steps (calls (snd (renderCamera fr cam enc (e, w)))) =
     steps (calls w) @ camera_steps fr enc cam"
  by (simp add: renderCamera_def camera_steps_def renderCamera_pass_steps createView_def
      split_beta Let_def split: option.split RenderTarget.split)

lemma renderCameras_steps:
  "steps (calls (snd (renderCameras fr cams enc s))) =
     steps (calls (snd s)) @ concat (map (camera_steps fr enc) cams)"
proof (induction cams arbitrary: s)
  case Nil
  show ?case by simp
next
  case (Cons c cs)
  show ?case
    using renderCamera_steps [of fr c enc "fst s" "snd s"]
    by (simp add: Cons.IH)
qed

lemma RenderLoop_steps:
  "steps (calls (snd (RenderLoop fr s))) =
     steps (calls (snd s)) @ concat (map (camera_steps fr (nextHandle (snd s))) (yielded fr s))"
proof -
  obtain frame e1 w1 where bf: "beginFrame (now_beginFrame fr) s = (frame, e1, w1)"
    by (cases "beginFrame (now_beginFrame fr) s")
  obtain dt where bs: "calls (snd (buildRenderStack fr (e1, w1))) = calls w1 @ [SceneUpdate dt]"
    using buildRenderStack_calls by blast
  have w1: "calls w1 = calls (snd s) @ [CreateCommandEncoder (nextHandle (snd s))]"
    using beginFrame_calls [of "now_beginFrame fr" s] by (simp add: bf)
  have enc: "commandEncoder frame = nextHandle (snd s)"
    using beginFrame_encoder [of "now_beginFrame fr" s] by (simp add: bf)
  show ?thesis
    by (simp add: RenderLoop_unfold bf split_beta endFrame_calls renderCameras_steps bs w1 enc)
qed

subsection \<open>The update hook\<close>

lemma sceneUpdates_simps [simp]:
  "sceneUpdates [] = []" "sceneUpdates (xs @ ys) = sceneUpdates xs @ sceneUpdates ys"
  "sceneUpdates (c # cs) =
     (case scene_update c of None \<Rightarrow> sceneUpdates cs | Some dt \<Rightarrow> dt # sceneUpdates cs)"
  by (simp_all add: sceneUpdates_def List.map_filter_def split: option.split)

lemma renderCamera_loop_sceneUpdates:
  "sceneUpdates (calls (renderCamera_loop p b v pr rs w)) = sceneUpdates (calls w)"
proof (induction rs arbitrary: w)
  case Nil
  show ?case by simp
next
  case (Cons r rs)
  have "sceneUpdates (draw_of r) = []"
    by (simp add: draw_of_def split: option.split)
  then show ?case
    by (simp add: Cons.IH renderCamera_draw_calls)
qed

lemma renderCamera_pass_sceneUpdates:
  "sceneUpdates (calls (snd (renderCamera_pass cam enc view fmt (e, w)))) = sceneUpdates (calls w)"
  by (simp add: renderCamera_pass_def renderCamera_loop_sceneUpdates createBuffer_def
      getOrCreate_calls split_beta Let_def split: option.split)

lemma renderCamera_sceneUpdates:
  "sceneUpdates (calls (snd (renderCamera fr cam enc (e, w)))) = sceneUpdates (calls w)"
  by (simp add: renderCamera_def renderCamera_pass_sceneUpdates createView_def
      split_beta Let_def split: option.split RenderTarget.split)

lemma renderCameras_sceneUpdates:
  "sceneUpdates (calls (snd (renderCameras fr cams enc s))) = sceneUpdates (calls (snd s))"
proof (induction cams arbitrary: s)
  case Nil
  show ?case by simp
next
  case (Cons c cs)
  show ?case
    using renderCamera_sceneUpdates [of fr c enc "fst s" "snd s"]
    by (simp add: Cons.IH)
qed

lemma RenderLoop_update_argument:
  "sceneUpdates (calls (snd (RenderLoop fr s))) =
     sceneUpdates (calls (snd s)) @
     [if now_beginFrame fr = 0 then 0
      else (now_buildRenderStack fr - now_beginFrame fr) / 1000]"
proof -
  obtain e w where s: "s = (e, w)" by (cases s)
  show ?thesis
    by (simp add: s RenderLoop_def beginFrame_def buildRenderStack_def createCommandEncoder_def
        split_beta Let_def endFrame_calls renderCameras_sceneUpdates)
qed

subsection \<open>The uniform buffer\<close>

lemma write_then_draw_append:
  "write_then_draw b xs \<Longrightarrow> write_then_draw b ys \<Longrightarrow> write_then_draw b (xs @ ys)"
  by (induction b xs rule: write_then_draw.induct) (auto split: if_splits list.splits)

lemma uniform_simps [simp]:
  "uniform [] = []" "uniform (xs @ ys) = uniform xs @ uniform ys"
  "uniform (c # cs) = (if uniform_call c then c # uniform cs else uniform cs)"
  by (simp_all add: uniform_def)

lemma draws_draw_call [simp]: "draws (draw_call r)"
  by (simp add: draw_call_def split: option.split)

lemma renderCamera_draw_nextHandle:
  "nextHandle (renderCamera_draw p b v pr r w) = Suc (nextHandle w)"
  by (simp add: renderCamera_draw_def createBindGroup_def split_beta Let_def split: option.split)

lemma renderCamera_draw_uniform:
  "uniform (calls (renderCamera_draw p b v pr r w)) =
     uniform (calls w) @
     [WriteBuffer b 0 (getTransform r, v, pr), CreateBindGroup (nextHandle w) p b, draw_call r]"
  by (simp add: renderCamera_draw_calls draw_of_def draw_call_def split: option.split)

lemma renderCamera_loop_uniform:
  "uniform (calls (renderCamera_loop p b v pr rs w)) =
     uniform (calls w) @ loop_uniform p b v pr rs (nextHandle w)"
  by (induction rs arbitrary: w)
     (simp_all add: renderCamera_draw_uniform renderCamera_draw_nextHandle)

lemma write_then_draw_loop: "write_then_draw b (loop_uniform p b v pr rs n)"
  by (induction rs arbitrary: n) simp_all

lemma getOrCreate_uniform:
  "uniform (calls (snd (snd (getOrCreate createRenderPipeline k
      (createRenderPipelineDescriptor f) cache w)))) = uniform (calls w)"
  by (simp add: getOrCreate_calls split: option.split)

lemma renderCamera_pass_uniform:
  assumes "uniform_ok (uniformBuffer e) (uniform (calls w))"
  shows "uniform_ok (uniformBuffer (fst (renderCamera_pass cam enc view fmt (e, w))))
           (uniform (calls (snd (renderCamera_pass cam enc view fmt (e, w)))))"
proof (cases "uniformBuffer e")
  case None
  have empty: "uniform (calls w) = []"
    using assms None by simp
  show ?thesis
    by (simp add: renderCamera_pass_def None split_beta Let_def createBuffer_def
        renderCamera_loop_uniform getOrCreate_uniform empty write_then_draw_loop)
next
  case (Some b)
  have ok: "uniform_ok (Some b) (uniform (calls w))"
    using assms Some by simp
  then obtain c c' rest where shape: "uniform (calls w) = c # c' # rest"
    by (cases "(Some b, uniform (calls w))" rule: uniform_ok.cases) auto
  have old: "uniform (calls w) = CreateBuffer b 192 # c' # rest"
    and c': "is_pass c'" and rest: "write_then_draw b rest"
    using ok by (simp_all add: shape)
  have "write_then_draw b (rest @ [BeginRenderPass enc view] @ loop_uniform p b v pr rs n)"
    for p v pr rs n
    by (intro write_then_draw_append rest) (simp_all add: write_then_draw_loop)
  then show ?thesis
    using c'
    by (simp add: renderCamera_pass_def Some split_beta Let_def
        renderCamera_loop_uniform getOrCreate_uniform old)
qed

lemma renderCamera_uniform:
  assumes "uniform_ok (uniformBuffer e) (uniform (calls w))"
  shows "uniform_ok (uniformBuffer (fst (renderCamera fr cam enc (e, w))))
           (uniform (calls (snd (renderCamera fr cam enc (e, w)))))"
proof -
  have pass: "uniform_ok (uniformBuffer (fst (renderCamera_pass cam enc view fmt (e, w'))))
           (uniform (calls (snd (renderCamera_pass cam enc view fmt (e, w')))))"
    if "uniform (calls w') = uniform (calls w)" for view fmt w'
    by (rule renderCamera_pass_uniform) (simp add: that assms)
  show ?thesis
    using assms
    by (auto simp add: renderCamera_def split_beta Let_def createView_def
        split: RenderTarget.split option.split intro!: pass)
qed

lemma renderCameras_uniform:
  "uniform_ok (uniformBuffer (fst s)) (uniform (calls (snd s))) \<Longrightarrow>
   uniform_ok (uniformBuffer (fst (renderCameras fr cams enc s)))
     (uniform (calls (snd (renderCameras fr cams enc s))))"
proof (induction cams arbitrary: s)
  case Nil
  then show ?case by simp
next
  case (Cons c cs)
  have "uniform_ok (uniformBuffer (fst (renderCamera fr c enc s)))
     (uniform (calls (snd (renderCamera fr c enc s))))"
    using renderCamera_uniform [of "fst s" "snd s" fr c enc] Cons.prems by simp
  then show ?case
    by (simp add: Cons.IH)
qed

lemma RenderLoop_uniform:
  assumes "uniform_ok (uniformBuffer (fst s)) (uniform (calls (snd s)))"
  shows "uniform_ok (uniformBuffer (fst (RenderLoop fr s))) (uniform (calls (snd (RenderLoop fr s))))"
proof -
  obtain frame e1 w1 where bf: "beginFrame (now_beginFrame fr) s = (frame, e1, w1)"
    by (cases "beginFrame (now_beginFrame fr) s")
  obtain dt where bs: "calls (snd (buildRenderStack fr (e1, w1))) = calls w1 @ [SceneUpdate dt]"
    using buildRenderStack_calls by blast
  have w1: "calls w1 = calls (snd s) @ [CreateCommandEncoder (nextHandle (snd s))]"
    using beginFrame_calls [of "now_beginFrame fr" s] by (simp add: bf)
  have e1: "uniformBuffer e1 = uniformBuffer (fst s)"
    using bf by (cases s) (auto simp: beginFrame_def split_beta Let_def)
  have "uniform_ok (uniformBuffer (fst (e1, snd (buildRenderStack fr (e1, w1)))))
      (uniform (calls (snd (e1, snd (buildRenderStack fr (e1, w1))))))"
    using assms by (simp add: e1 bs w1)
  from renderCameras_uniform [OF this, of fr "yielded fr s" "commandEncoder frame"]
  show ?thesis
    by (simp add: RenderLoop_unfold bf split_beta endFrame_calls)
qed

lemma run_uniform:
  "uniform_ok (uniformBuffer (fst s)) (uniform (calls (snd s))) \<Longrightarrow>
   uniform_ok (uniformBuffer (fst (run frs s))) (uniform (calls (snd (run frs s))))"
  by (induction frs arbitrary: s) (simp_all add: RenderLoop_uniform)

subsection \<open>Evaluating the concrete run\<close>

lemmas engine_defs = RenderLoop_def beginFrame_def buildRenderStack_def endFrame_def
  renderCamera_def renderCamera_pass_def renderCamera_draw_def getOrCreate_def
  createRenderPipelineDescriptor_def creators create_def emit_def getRenderCameras_def
  Engine_new_def getCurrentTexture_def Let_def

lemmas demo_defs = demo_first_def demo_second_def demo_priorities_def demo_start_def
  demo_frame_def
  demo_camera_def demo_quad_def demo_triangle_def demo_surface_def demo_canvas_def
  demo_context_def demo_platform_def demo_ratio_0_7_def demo_ratio_1_2_def

section \<open>Claims\<close>

subsection \<open>Claims about the surface resource manager\<close>

text \<open>
  Claim C4. Over any sequence of \<open>updateSize\<close> calls, each finding its own displayed
  size and pixel density, the presentation chain is reconfigured once for every call
  whose effective size differs from the size stored at that moment and not at all for
  the others: the number of reconfigurations grows by exactly \<open>changes\<close>, and the size
  stored in the end is the effective size of the last call. A call that finds the
  stored size returns the context as it was, issuing nothing. A call that finds
  another size reconfigures once: it issues the two assignments of the new size to
  the dimensions of the element and nothing else, stores the new size, and leaves the
  element with the dimensions these assignments give it. The effective size is the
  floor of the double product that the source computes. The reconfiguration is the
  \<open>resize\<close> the source performs; \<open>context.configure\<close> is issued by the constructor
  only (\<open>updateSizes_never_configure\<close>).
\<close>

theorem updateSizes_reconfigures_on_change:
  "reconfigurations (updateSizes win ls c) =
     reconfigurations c + changes (size_c c) (map layoutSize ls)
   \<and> (ls \<noteq> [] \<longrightarrow> size_c (updateSizes win ls c) = layoutSize (last ls))
   \<and> (same_size (size_c c) (effectiveSize win (canvas c)) \<longrightarrow> updateSize win c = c)
   \<and> (\<not> same_size (size_c c) (effectiveSize win (canvas c)) \<longrightarrow>
        reconfigurations (updateSize win c) = Suc (reconfigurations c)
        \<and> issued (updateSize win c) =
            issued c @ [CanvasSetWidth (width (effectiveSize win (canvas c))),
                        CanvasSetHeight (height (effectiveSize win (canvas c)))]
        \<and> size_c (updateSize win c) = effectiveSize win (canvas c)
        \<and> canvas_width (canvas (updateSize win c)) =
            reflect_dimension 300 (width (effectiveSize win (canvas c)))
        \<and> canvas_height (canvas (updateSize win c)) =
            reflect_dimension 150 (height (effectiveSize win (canvas c))))"
proof (intro conjI impI)
  show "reconfigurations (updateSizes win ls c) =
     reconfigurations c + changes (size_c c) (map layoutSize ls)"
    by (induction ls arbitrary: c)
       (simp_all add: updateSize_at_reconfigurations updateSize_at_size)
next
  assume "ls \<noteq> []"
  then show "size_c (updateSizes win ls c) = layoutSize (last ls)"
    by (rule updateSizes_size)
next
  assume "same_size (size_c c) (effectiveSize win (canvas c))"
  then show "updateSize win c = c"
    by (simp add: updateSize_unfold)
next
  assume changed: "\<not> same_size (size_c c) (effectiveSize win (canvas c))"
  show "reconfigurations (updateSize win c) = Suc (reconfigurations c)"
    using changed by (simp add: updateSize_unfold resize_def reconfigurations_def)
  show "issued (updateSize win c) =
      issued c @ [CanvasSetWidth (width (effectiveSize win (canvas c))),
                  CanvasSetHeight (height (effectiveSize win (canvas c)))]"
    using changed by (simp add: updateSize_unfold resize_def)
  show "size_c (updateSize win c) = effectiveSize win (canvas c)"
    by (rule updateSize_size)
  show "canvas_width (canvas (updateSize win c)) =
      reflect_dimension 300 (width (effectiveSize win (canvas c)))"
    using changed by (simp add: updateSize_unfold resize_def)
  show "canvas_height (canvas (updateSize win c)) =
      reflect_dimension 150 (height (effectiveSize win (canvas c)))"
    using changed by (simp add: updateSize_unfold resize_def)
qed

text \<open>
  The scenario of the spec: the surface displayed at 800 by 600 with density 2 and
  stored size 1600 by 1200 is left alone; displayed at 801 by 600 it is reconfigured
  once, to 1602 by 1200. And a zoom: displayed at 800 by 600 with the density that
  is the double written 1.2, then at 960 by 720 with density 1, the surface is
  reconfigured once, to 960 by 720, since the two double products are 960 and 720.
\<close>

theorem updateSizes_reconfigures_on_change_witness:
  "(let wide = \<lparr>shown_width = 801, shown_height = 600, ratio = 2\<rparr>;
        c = relayout wide demo_surface;
        zoom = [\<lparr>shown_width = 800, shown_height = 600, ratio = demo_ratio_1_2\<rparr>,
                \<lparr>shown_width = 960, shown_height = 720, ratio = 1\<rparr>]
    in same_size (size_c demo_surface) (effectiveSize demo_platform (canvas demo_surface))
       \<and> updateSize demo_platform demo_surface = demo_surface
       \<and> \<not> same_size (size_c c) (effectiveSize demo_platform (canvas c))
       \<and> reconfigurations (updateSize demo_platform c) = Suc (reconfigurations c)
       \<and> size_c (updateSize demo_platform c) = \<lparr>width = Finite 1602, height = Finite 1200\<rparr>
       \<and> canvas_width (canvas (updateSize demo_platform c)) = 1602
       \<and> canvas_height (canvas (updateSize demo_platform c)) = 1200
       \<and> zoom \<noteq> []
       \<and> reconfigurations (updateSizes demo_platform zoom demo_surface) = 1
       \<and> size_c (updateSizes demo_platform zoom demo_surface) =
           \<lparr>width = Finite 960, height = Finite 720\<rparr>)"
proof -
  define wide where "wide = \<lparr>shown_width = 801, shown_height = 600, ratio = 2\<rparr>"
  define zoom where "zoom = [\<lparr>shown_width = 800, shown_height = 600, ratio = demo_ratio_1_2\<rparr>,
                \<lparr>shown_width = 960, shown_height = 720, ratio = 1\<rparr>]"
  have kept: "effectiveSize demo_platform (canvas demo_surface) =
      \<lparr>width = Finite 1600, height = Finite 1200\<rparr>"
    by (simp add: effectiveSize_def pixelRatio_def demo_defs double_defs)
  have moved: "effectiveSize demo_platform (canvas (relayout wide demo_surface)) =
      \<lparr>width = Finite 1602, height = Finite 1200\<rparr>"
    by (simp add: wide_def effectiveSize_def pixelRatio_def relayout_def demo_defs double_defs)
  have stored: "size_c (relayout wide demo_surface) = \<lparr>width = Finite 1600, height = Finite 1200\<rparr>"
    by (simp add: relayout_def demo_defs)
  have sizes: "map layoutSize zoom =
      [\<lparr>width = Finite 960, height = Finite 720\<rparr>, \<lparr>width = Finite 960, height = Finite 720\<rparr>]"
    by (simp add: zoom_def layoutSize_def demo_defs double_defs)
  have last: "layoutSize (last zoom) = \<lparr>width = Finite 960, height = Finite 720\<rparr>"
    by (simp add: zoom_def layoutSize_def double_defs)
  have none: "reconfigurations demo_surface = 0" "size_c demo_surface =
      \<lparr>width = Finite 1600, height = Finite 1200\<rparr>"
    by (simp_all add: reconfigurations_def demo_defs)
  have nonempty: "zoom \<noteq> []"
    by (simp add: zoom_def)
  have dims: "reflect_dimension 300 (Finite 1602) = 1602" "reflect_dimension 150 (Finite 1200) = 1200"
    by (simp_all add: reflect_dimension_def)
  from updateSizes_reconfigures_on_change [of demo_platform zoom demo_surface]
    updateSizes_reconfigures_on_change [of demo_platform "[]" "relayout wide demo_surface"]
  show ?thesis
    unfolding Let_def wide_def [symmetric] zoom_def [symmetric]
    unfolding kept moved stored sizes last none
    using nonempty dims
    by (simp add: same_size_def strict_equal_def)
qed

text \<open>
  Claim C5. After \<open>updateSize\<close> the stored size is, in each component, the floor of
  the displayed size times the pixel density, whether the call resized or found the
  size unchanged. The product is the one JavaScript computes, rounded to a double
  before the floor. The density is \<open>pixelRatio\<close>: the device pixel ratio, and 1 where
  the platform reports 0.
\<close>

theorem updateSize_stores_floor:
  "size_c (updateSize win c) =
     \<lparr>width = Math_floor (number_times (of_int (clientWidth (canvas c))) (pixelRatio win)),
      height = Math_floor (number_times (of_int (clientHeight (canvas c))) (pixelRatio win))\<rparr>"
  using updateSize_size [of win c] by (simp add: effectiveSize_def)

text \<open>
  Displayed at 10 by 600 with the density that is the double written 0.7, the stored
  size becomes 7 by 420; at 800 by 600 with the double written 1.2 it becomes 960 by
  720. The exact products lie just below these integers and round to them.
\<close>

theorem updateSize_stores_floor_witness:
  "size_c (updateSize (demo_platform\<lparr>devicePixelRatio := demo_ratio_0_7\<rparr>)
      (relayout \<lparr>shown_width = 10, shown_height = 600, ratio = demo_ratio_0_7\<rparr> demo_surface))
     = \<lparr>width = Finite 7, height = Finite 420\<rparr>
   \<and> size_c (updateSize (demo_platform\<lparr>devicePixelRatio := demo_ratio_1_2\<rparr>)
      (relayout \<lparr>shown_width = 800, shown_height = 600, ratio = demo_ratio_1_2\<rparr> demo_surface))
     = \<lparr>width = Finite 960, height = Finite 720\<rparr>
   \<and> round_to_double (7 / 10) = Finite demo_ratio_0_7
   \<and> round_to_double (6 / 5) = Finite demo_ratio_1_2"
proof -
  have small: "Math_floor (number_times 10 demo_ratio_0_7) = Finite 7"
    "Math_floor (number_times 600 demo_ratio_0_7) = Finite 420"
    by (simp_all add: demo_defs double_defs)
  have zoomed: "Math_floor (number_times 800 demo_ratio_1_2) = Finite 960"
    "Math_floor (number_times 600 demo_ratio_1_2) = Finite 720"
    by (simp_all add: demo_defs double_defs)
  have written: "round_to_double (7 / 10) = Finite demo_ratio_0_7"
    "round_to_double (6 / 5) = Finite demo_ratio_1_2"
    by (simp_all add: demo_defs double_defs)
  have nonzero: "demo_ratio_0_7 \<noteq> 0" "demo_ratio_1_2 \<noteq> 0"
    by (simp_all add: demo_defs)
  from updateSize_stores_floor
      [of "demo_platform\<lparr>devicePixelRatio := demo_ratio_0_7\<rparr>"
          "relayout \<lparr>shown_width = 10, shown_height = 600, ratio = demo_ratio_0_7\<rparr> demo_surface"]
    updateSize_stores_floor
      [of "demo_platform\<lparr>devicePixelRatio := demo_ratio_1_2\<rparr>"
          "relayout \<lparr>shown_width = 800, shown_height = 600, ratio = demo_ratio_1_2\<rparr> demo_surface"]
  show ?thesis
    using nonzero by (simp add: relayout_def pixelRatio_def small zoomed written)
qed

text \<open>
  Claim C10. The claim has the stored size equal the dimensions of the canvas element
  after every \<open>resize\<close> and \<open>updateSize\<close>. The element does not keep every number it is
  assigned: after \<open>resize(-5, 10)\<close> the stored width is -5 and the width of the element
  is its default, 300; and \<open>updateSize\<close> on an element displayed 2000000000 wide with
  density 2 stores the width 4000000000 and leaves the element 300 wide.
\<close>

theorem resize_out_of_range_breaks_size_match:
  "size_matches_canvas demo_surface
   \<and> \<not> size_matches_canvas (resize (Finite (- 5)) (Finite 10) demo_surface)
   \<and> width (size_c (resize (Finite (- 5)) (Finite 10) demo_surface)) = Finite (- 5)
   \<and> canvas_width (canvas (resize (Finite (- 5)) (Finite 10) demo_surface)) = 300
   \<and> \<not> size_matches_canvas
        (updateSize demo_platform
           (relayout \<lparr>shown_width = 2000000000, shown_height = 600, ratio = 2\<rparr> demo_surface))"
proof -
  have "effectiveSize demo_platform
      (canvas (relayout \<lparr>shown_width = 2000000000, shown_height = 600, ratio = 2\<rparr> demo_surface))
      = \<lparr>width = Finite 4000000000, height = Finite 1200\<rparr>"
    by (simp add: effectiveSize_def pixelRatio_def relayout_def demo_defs double_defs)
  then show ?thesis
    by (simp add: size_matches_canvas_def updateSize_unfold same_size_def resize_def
        relayout_def reflect_dimension_def strict_equal_def demo_defs)
qed

text \<open>
  Claim C10, amended. The stored size equals the dimensions of the canvas element after
  the constructor (whenever it returns a context), after every \<open>resize\<close> to a width and
  a height that are integers from 0 to 2147483647, after every \<open>updateSize\<close> on a
  context where the equality held before and whose computed size is made of such
  integers, and after \<open>configure\<close> on a context where it held before.
\<close>

theorem size_matches_canvas_in_range:
  "(CanvasContext_new win cv = Inr c0 \<longrightarrow> size_matches_canvas c0)
   \<and> (valid_dimension w \<and> valid_dimension h \<longrightarrow> size_matches_canvas (resize w h c))
   \<and> (size_matches_canvas c
        \<and> valid_dimension (width (effectiveSize win (canvas c)))
        \<and> valid_dimension (height (effectiveSize win (canvas c)))
        \<longrightarrow> size_matches_canvas (updateSize win c))
   \<and> (size_matches_canvas c \<longrightarrow> size_matches_canvas (configure win c))"
proof (intro conjI impI)
  assume "CanvasContext_new win cv = Inr c0"
  then show "size_matches_canvas c0"
    by (auto simp: CanvasContext_new_def size_matches_canvas_def configure_def
        strict_equal_def split: option.splits)
next
  assume "valid_dimension w \<and> valid_dimension h"
  then show "size_matches_canvas (resize w h c)"
    by (simp add: resize_matches)
next
  assume "size_matches_canvas c
        \<and> valid_dimension (width (effectiveSize win (canvas c)))
        \<and> valid_dimension (height (effectiveSize win (canvas c)))"
  then show "size_matches_canvas (updateSize win c)"
    by (simp add: updateSize_unfold resize_matches)
next
  assume "size_matches_canvas c"
  then show "size_matches_canvas (configure win c)"
    by (simp add: size_matches_canvas_def configure_def)
qed

theorem size_matches_canvas_in_range_witness:
  "(let c = relayout \<lparr>shown_width = 801, shown_height = 600, ratio = 2\<rparr> demo_surface
    in CanvasContext_new demo_platform demo_canvas = Inr demo_surface
       \<and> size_matches_canvas demo_surface
       \<and> valid_dimension (Finite 640) \<and> valid_dimension (Finite 480)
       \<and> size_matches_canvas (resize (Finite 640) (Finite 480) demo_surface)
       \<and> canvas_width (canvas (resize (Finite 640) (Finite 480) demo_surface)) = 640
       \<and> size_matches_canvas c
       \<and> valid_dimension (width (effectiveSize demo_platform (canvas c)))
       \<and> valid_dimension (height (effectiveSize demo_platform (canvas c)))
       \<and> size_matches_canvas (updateSize demo_platform c)
       \<and> size_c (updateSize demo_platform c) = \<lparr>width = Finite 1602, height = Finite 1200\<rparr>
       \<and> canvas_width (canvas (updateSize demo_platform c)) = 1602
       \<and> canvas_height (canvas (updateSize demo_platform c)) = 1200
       \<and> size_matches_canvas (configure demo_platform demo_surface))"
proof -
  define c where "c = relayout \<lparr>shown_width = 801, shown_height = 600, ratio = 2\<rparr> demo_surface"
  have built: "CanvasContext_new demo_platform demo_canvas = Inr demo_surface"
    by (simp add: CanvasContext_new_def configure_def demo_defs)
  have before: "size_matches_canvas c"
    by (simp add: c_def size_matches_canvas_def relayout_def strict_equal_def demo_defs)
  have computed: "effectiveSize demo_platform (canvas c) =
      \<lparr>width = Finite 1602, height = Finite 1200\<rparr>"
    by (simp add: c_def effectiveSize_def pixelRatio_def relayout_def demo_defs double_defs)
  have stored: "size_c c = \<lparr>width = Finite 1600, height = Finite 1200\<rparr>"
    by (simp add: c_def relayout_def demo_defs)
  have after: "updateSize demo_platform c = resize (Finite 1602) (Finite 1200) c"
    by (simp add: updateSize_unfold computed stored same_size_def strict_equal_def)
  from size_matches_canvas_in_range
      [of demo_platform demo_canvas demo_surface "Finite 640" "Finite 480" demo_surface]
    size_matches_canvas_in_range
      [of demo_platform demo_canvas demo_surface "Finite 640" "Finite 480" c]
  show ?thesis
    unfolding Let_def c_def [symmetric]
    using built before
    by (simp add: computed after resize_def reflect_dimension_def)
qed

subsection \<open>Claims about the pipeline cache\<close>

text \<open>
  Claim C3. When the key is missing, two successive \<open>getOrCreate\<close> calls with the same
  key and builder invoke the builder once and compile once (the counters of a counting
  builder and a counting device each advance by one), the first call stores the built
  pipeline under the key, and the second returns the same pipeline and changes neither
  the cache nor the world. On a hit the stored pipeline is returned and nothing is
  invoked.
\<close>

theorem getOrCreate_builds_once:
  "(cache key = None \<longrightarrow>
      (case getOrCreate (counting_device dev) key (counting_builder b) cache
              (built, compiled, w) of
         (p1, cache1, s1) \<Rightarrow>
           (case getOrCreate (counting_device dev) key (counting_builder b) cache1 s1 of
              (p2, cache2, s2) \<Rightarrow>
                p2 = p1 \<and> cache1 key = Some p1 \<and> cache2 = cache1 \<and> s2 = s1
                \<and> fst s2 = Suc built \<and> fst (snd s2) = Suc compiled)))
   \<and> (cache key = Some p \<longrightarrow>
        getOrCreate (counting_device dev) key (counting_builder b) cache (built, compiled, w)
          = (p, cache, (built, compiled, w)))"
  by (auto simp: getOrCreate_def counting_device_def counting_builder_def split: prod.splits)

theorem getOrCreate_builds_once_witness:
  "(let dev = (\<lambda>d n. (n, Suc n)); b = (\<lambda>n. (''bgra8unorm'', n :: nat))
    in (Map.empty :: string \<rightharpoonup> nat) ''basic_bgra8unorm'' = None
       \<and> getOrCreate (counting_device dev) ''basic_bgra8unorm'' (counting_builder b)
            Map.empty (0, 0, 7) = (7, [''basic_bgra8unorm'' \<mapsto> 7], (1, 1, 8))
       \<and> getOrCreate (counting_device dev) ''basic_bgra8unorm'' (counting_builder b)
            [''basic_bgra8unorm'' \<mapsto> 7] (1, 1, 8) = (7, [''basic_bgra8unorm'' \<mapsto> 7], (1, 1, 8))
       \<and> [''basic_bgra8unorm'' \<mapsto> (7::nat)] ''basic_bgra8unorm'' = Some 7)"
  unfolding Let_def
  using getOrCreate_builds_once
    [where cache = "Map.empty" and key = "''basic_bgra8unorm''" and dev = "\<lambda>d n. (n, Suc n)"
       and b = "\<lambda>n. (''bgra8unorm'', n)" and built = 0 and compiled = 0 and w = 7 and p = 7]
    getOrCreate_builds_once
    [where cache = "[''basic_bgra8unorm'' \<mapsto> 7]" and key = "''basic_bgra8unorm''"
       and dev = "\<lambda>d n. (n, Suc n)" and b = "\<lambda>n. (''bgra8unorm'', n)"
       and built = 1 and compiled = 1 and w = 8 and p = 7]
  by (simp add: getOrCreate_def counting_device_def counting_builder_def)

subsection \<open>Claims about the frame orchestrator\<close>

text \<open>
  Claim C1. The claim has the scene manager's update hook receive the delta-time that
  \<open>beginFrame\<close> computed for the frame. It does not: \<open>buildRenderStack\<close> recomputes
  the delta from \<open>_lastFrameTime\<close>, which \<open>beginFrame\<close> has just overwritten with the
  frame's own timestamp, and \<open>FrameContext.lastDeltaTime\<close> is never read
  (\<open>RenderLoop_update_argument\<close>). In the concrete run \<open>beginFrame\<close> records the
  delta-times 0 and 0.016 seconds while the hook receives 0.001 in both frames. The
  hook is called once per frame, before the cameras are rendered.
\<close>

theorem update_hook_receives_other_delta:
  "deltaTimes [demo_first, demo_second] demo_start = [0, 2 / 125]
   \<and> sceneUpdates (calls (snd (run [demo_first, demo_second] demo_start))) = [1 / 1000, 1 / 1000]"
proof
  show "deltaTimes [demo_first, demo_second] demo_start = [0, 2 / 125]"
    by (simp add: beginFrame_delta RenderLoop_lastFrameTime demo_defs Engine_new_def)
  show "sceneUpdates (calls (snd (run [demo_first, demo_second] demo_start))) =
      [1 / 1000, 1 / 1000]"
    by (simp add: RenderLoop_update_argument demo_defs)
qed

text \<open>
  Claim C2. Whatever sequence of cameras the loop of \<open>RenderLoop\<close> is given, it
  renders them one after the other in exactly that order, neither sorting nor
  filtering: the steps in its call sequence are those due to the first camera, then
  those due to the second, and so on, each camera with its own target, matrices,
  renderables and draws, which is all the engine reads of a camera. In a frame the sequence is the one the scene manager yields
  after its update; with the collaborator as the spec describes it, the frame renders
  the enabled cameras of the scene in ascending priority order, cameras of equal
  priority in their input order.
\<close>

theorem cameras_processed_in_yielded_order:
  "steps (calls (snd (renderCameras fr cams enc s))) =
     steps (calls (snd s)) @ concat (map (camera_steps fr enc) cams)
   \<and> steps (calls (snd (RenderLoop fr t))) =
       steps (calls (snd t)) @
       concat (map (camera_steps fr (nextHandle (snd t)))
                 (sort_key order (filter enabled (cameras (updatedScene fr t)))))
   \<and> sorted (map order (sort_key order (filter enabled (cameras (updatedScene fr t)))))
   \<and> (\<forall>k. filter (\<lambda>c. order c = k)
              (sort_key order (filter enabled (cameras (updatedScene fr t)))) =
            filter (\<lambda>c. order c = k) (filter enabled (cameras (updatedScene fr t))))"
proof (intro conjI)
  show "steps (calls (snd (renderCameras fr cams enc s))) =
     steps (calls (snd s)) @ concat (map (camera_steps fr enc) cams)"
    by (rule renderCameras_steps)
  show "steps (calls (snd (RenderLoop fr t))) =
       steps (calls (snd t)) @
       concat (map (camera_steps fr (nextHandle (snd t)))
                 (sort_key order (filter enabled (cameras (updatedScene fr t)))))"
    using RenderLoop_steps [of fr t] by (simp add: yielded_def getRenderCameras_def)
  show "sorted (map order (sort_key order (filter enabled (cameras (updatedScene fr t)))))"
    by simp
  show "\<forall>k. filter (\<lambda>c. order c = k)
              (sort_key order (filter enabled (cameras (updatedScene fr t)))) =
            filter (\<lambda>c. order c = k) (filter enabled (cameras (updatedScene fr t)))"
    by (simp only: sort_key_stable) simp
qed

text \<open>
  In the frame of the five cameras the steps are those of the camera of priority 1 on
  the texture, of the camera of priority 1 on \<open>main\<close>, of the camera of priority 2 on
  \<open>main\<close>, and the warning for the camera of priority 3; the disabled camera has none.
\<close>

theorem cameras_processed_in_yielded_order_witness:
  "map order (sort_key order (filter enabled (cameras (updatedScene demo_priorities demo_start))))
     = [1, 1, 2, 3]
   \<and> steps (calls (snd (RenderLoop demo_priorities demo_start))) =
       [Targeted 200, PassBegun 0,
        Written ([], [], []), VertexBufferSet 52, Drawn 3, PassEnded,
        Targeted 100, AspectUpdated 1600 1200, PassBegun 0,
        Written ([], [], []), VertexBufferSet 52, Drawn 3,
        Written ([], [], []), VertexBufferSet 50, IndexBufferSet 51 Uint16, DrawnIndexed 6,
        PassEnded,
        Targeted 100, AspectUpdated 1600 1200, PassBegun 0,
        Written ([], [], []), VertexBufferSet 50, IndexBufferSet 51 Uint16, DrawnIndexed 6,
        PassEnded,
        Skipped ''Canvas context not found: gone'']"
proof -
  have y: "sort_key order (filter enabled (cameras (updatedScene demo_priorities demo_start))) =
     [demo_camera
        (TextureTarget \<lparr>texture_id = 200, texture_width = 256, texture_height = 256\<rparr> 256 256)
        True 1 [demo_triangle],
      demo_camera (CanvasTarget ''main'') True 1 [demo_triangle, demo_quad],
      demo_camera (CanvasTarget ''main'') True 2 [demo_quad],
      demo_camera (CanvasTarget ''gone'') True 3 [demo_quad]]"
    by (simp add: updatedScene_def buildRenderStack_def split_beta Let_def
        demo_priorities_def demo_frame_def demo_camera_def)
  have "steps (calls (snd (RenderLoop demo_priorities demo_start))) =
       steps (calls (snd demo_start)) @
       concat (map (camera_steps demo_priorities (nextHandle (snd demo_start)))
                 (sort_key order (filter enabled
                    (cameras (updatedScene demo_priorities demo_start)))))"
    using cameras_processed_in_yielded_order [of demo_priorities "[]" 0 demo_start demo_start]
    by blast
  then show ?thesis
    unfolding y
    by (simp add: camera_steps_def pass_steps_def renderable_steps_def demo_defs
        getCurrentTexture_def)
qed

text \<open>
  Claim C6. A camera whose canvas id is not registered makes \<open>renderCamera\<close> return
  with the engine unchanged and one warning issued, nothing else. \<open>RenderLoop\<close> has no
  failing branch, and a frame issues, warnings apart, exactly the calls of the same
  frame with the unresolvable cameras taken out of the scene, and leaves the same
  engine state and object identities: every other camera is rendered as if the skipped
  ones were absent. The frame's last two calls finish and submit the command encoder
  that \<open>beginFrame\<close> created.
\<close>

theorem unresolved_camera_is_skipped:
  "(target cam = CanvasTarget canvasId \<and> canvasManager fr canvasId = None \<longrightarrow>
      renderCamera fr cam enc (e, w) =
        (e, emit (ConsoleWarn (''Canvas context not found: '' @ canvasId)) w))
   \<and> fst (RenderLoop fr s) = fst (RenderLoop (without_unresolvable fr) s)
   \<and> silence (snd (RenderLoop fr s)) = silence (snd (RenderLoop (without_unresolvable fr) s))
   \<and> (\<exists>pre. calls (snd (RenderLoop fr s)) =
          pre @ [Finish (nextHandle (snd s)), Submit (nextHandle (snd s))])"
proof (intro conjI impI)
  assume "target cam = CanvasTarget canvasId \<and> canvasManager fr canvasId = None"
  then show "renderCamera fr cam enc (e, w) =
        (e, emit (ConsoleWarn (''Canvas context not found: '' @ canvasId)) w)"
    by (simp add: renderCamera_def)
next
  show "fst (RenderLoop fr s) = fst (RenderLoop (without_unresolvable fr) s)"
    using RenderLoop_skip_unresolvable by blast
  show "silence (snd (RenderLoop fr s)) = silence (snd (RenderLoop (without_unresolvable fr) s))"
    using RenderLoop_skip_unresolvable by blast
  show "\<exists>pre. calls (snd (RenderLoop fr s)) =
          pre @ [Finish (nextHandle (snd s)), Submit (nextHandle (snd s))]"
    by (rule RenderLoop_submits)
qed

theorem unresolved_camera_is_skipped_witness:
  "target (demo_camera (CanvasTarget ''gone'') True 1 [demo_quad]) = CanvasTarget ''gone''
   \<and> canvasManager demo_first ''gone'' = None
   \<and> renderCamera demo_first (demo_camera (CanvasTarget ''gone'') True 1 [demo_quad]) 0
        (Engine_new, \<lparr>nextHandle = 1, calls = []\<rparr>) =
      (Engine_new, \<lparr>nextHandle = 1, calls = [ConsoleWarn ''Canvas context not found: gone'']\<rparr>)
   \<and> calls (snd (RenderLoop demo_first demo_start)) =
      [CreateCommandEncoder 0, SceneUpdate (1 / 1000),
       ConsoleWarn ''Canvas context not found: gone'',
       CreateView 100 1, UpdateAspect 1600 1200,
       CreateShaderModule 2, CreateShaderModule 3,
       CreateRenderPipeline 4
         \<lparr>vertex_module = 2, fragment_module = 3, target_format = ''bgra8unorm''\<rparr>,
       CreateBuffer 5 192, BeginRenderPass 0 1, SetPipeline 4,
       WriteBuffer 5 0 ([], [], []), CreateBindGroup 6 4 5, SetBindGroup 0 6,
       SetVertexBuffer 0 50, SetIndexBuffer 51 Uint16, DrawIndexed 6,
       WriteBuffer 5 0 ([], [], []), CreateBindGroup 7 4 5, SetBindGroup 0 7,
       SetVertexBuffer 0 52, Draw 3, EndPass, Finish 0, Submit 0]"
proof -
  have unregistered:
    "target (demo_camera (CanvasTarget ''gone'') True 1 [demo_quad]) = CanvasTarget ''gone''
     \<and> canvasManager demo_first ''gone'' = None"
    by (simp add: demo_defs)
  have skipped:
    "renderCamera demo_first (demo_camera (CanvasTarget ''gone'') True 1 [demo_quad]) 0
        (Engine_new, \<lparr>nextHandle = 1, calls = []\<rparr>) =
      (Engine_new, emit (ConsoleWarn (''Canvas context not found: '' @ ''gone''))
         \<lparr>nextHandle = 1, calls = []\<rparr>)"
    using unresolved_camera_is_skipped
      [of "demo_camera (CanvasTarget ''gone'') True 1 [demo_quad]" "''gone''" demo_first 0
          Engine_new "\<lparr>nextHandle = 1, calls = []\<rparr>" demo_start]
      unregistered
    by blast
  have frame: "calls (snd (RenderLoop demo_first demo_start)) =
      [CreateCommandEncoder 0, SceneUpdate (1 / 1000),
       ConsoleWarn ''Canvas context not found: gone'',
       CreateView 100 1, UpdateAspect 1600 1200,
       CreateShaderModule 2, CreateShaderModule 3,
       CreateRenderPipeline 4
         \<lparr>vertex_module = 2, fragment_module = 3, target_format = ''bgra8unorm''\<rparr>,
       CreateBuffer 5 192, BeginRenderPass 0 1, SetPipeline 4,
       WriteBuffer 5 0 ([], [], []), CreateBindGroup 6 4 5, SetBindGroup 0 6,
       SetVertexBuffer 0 50, SetIndexBuffer 51 Uint16, DrawIndexed 6,
       WriteBuffer 5 0 ([], [], []), CreateBindGroup 7 4 5, SetBindGroup 0 7,
       SetVertexBuffer 0 52, Draw 3, EndPass, Finish 0, Submit 0]"
    by (simp add: engine_defs demo_defs)
  show ?thesis
    using unregistered frame skipped by (simp add: emit_def)
qed

text \<open>
  Claim C7. Over any run from a new engine, of any number of frames, the engine holds
  no uniform buffer as long as no render pass has been opened, and from the first
  render pass on it holds the one buffer it created then, of 192 bytes = 3 matrices of
  16 floats of 4 bytes. No other buffer is ever created; every write goes to that
  buffer at offset 0 and is followed by the bind group on that buffer and by the draw
  of the same renderable before the next write. This is the order of the calls the
  engine issues.
\<close>

theorem single_uniform_buffer:
  "uniform_ok (uniformBuffer (fst (run frs (Engine_new, \<lparr>nextHandle = n, calls = []\<rparr>))))
     (uniform (calls (snd (run frs (Engine_new, \<lparr>nextHandle = n, calls = []\<rparr>)))))"
  by (rule run_uniform) (simp add: Engine_new_def)

theorem single_uniform_buffer_witness:
  "uniformBuffer (fst (run [demo_first, demo_second] demo_start)) = Some 5
   \<and> uniform (calls (snd (run [demo_first, demo_second] demo_start))) =
      [CreateBuffer 5 192, BeginRenderPass 0 1,
       WriteBuffer 5 0 ([], [], []), CreateBindGroup 6 4 5, DrawIndexed 6,
       WriteBuffer 5 0 ([], [], []), CreateBindGroup 7 4 5, Draw 3,
       BeginRenderPass 8 9,
       WriteBuffer 5 0 ([], [], []), CreateBindGroup 10 4 5, Draw 3]
   \<and> uniform_ok (uniformBuffer (fst (run [demo_first, demo_second] demo_start)))
        (uniform (calls (snd (run [demo_first, demo_second] demo_start))))"
proof -
  have buffer: "uniformBuffer (fst (run [demo_first, demo_second] demo_start)) = Some 5"
    by (simp add: engine_defs demo_defs)
  have life: "uniform (calls (snd (run [demo_first, demo_second] demo_start))) =
      [CreateBuffer 5 192, BeginRenderPass 0 1,
       WriteBuffer 5 0 ([], [], []), CreateBindGroup 6 4 5, DrawIndexed 6,
       WriteBuffer 5 0 ([], [], []), CreateBindGroup 7 4 5, Draw 3,
       BeginRenderPass 8 9,
       WriteBuffer 5 0 ([], [], []), CreateBindGroup 10 4 5, Draw 3]"
    by (simp add: engine_defs demo_defs uniform_def)
  have "uniform_ok (uniformBuffer (fst (run [demo_first, demo_second] demo_start)))
        (uniform (calls (snd (run [demo_first, demo_second] demo_start))))"
    unfolding demo_start_def by (rule single_uniform_buffer)
  then show ?thesis
    using buffer life by simp
qed

text \<open>
  Claim C8. For one renderable the loop body issues the buffer write, the bind group
  and the vertex buffer, and then exactly one draw: \<open>setIndexBuffer\<close> with \<open>uint16\<close>
  and \<open>drawIndexed(indexCount)\<close> when the mesh has an index buffer, \<open>draw(vertexCount)\<close>
  otherwise. The draw encoding of a whole frame is that of the renderables of the
  resolvable cameras, in order, one draw each.
\<close>

theorem one_draw_per_renderable:
  "calls (renderCamera_draw p b v pr r w) =
     calls w @ [WriteBuffer b 0 (getTransform r, v, pr), CreateBindGroup (nextHandle w) p b,
                SetBindGroup 0 (nextHandle w), SetVertexBuffer 0 (vertexBuffer (mesh r))]
             @ (case indexBuffer (mesh r) of
                  Some ib \<Rightarrow> [SetIndexBuffer ib Uint16, DrawIndexed (indexCount (mesh r))]
                | None \<Rightarrow> [Draw (vertexCount (mesh r))])
   \<and> filter is_draw (calls (snd (RenderLoop fr s))) =
       filter is_draw (calls (snd s)) @
       concat (map (\<lambda>c. concat (map draw_of (renderables (scene c))))
                   (filter (resolvable fr) (yielded fr s)))"
proof
  show "calls (renderCamera_draw p b v pr r w) =
     calls w @ [WriteBuffer b 0 (getTransform r, v, pr), CreateBindGroup (nextHandle w) p b,
                SetBindGroup 0 (nextHandle w), SetVertexBuffer 0 (vertexBuffer (mesh r))]
             @ (case indexBuffer (mesh r) of
                  Some ib \<Rightarrow> [SetIndexBuffer ib Uint16, DrawIndexed (indexCount (mesh r))]
                | None \<Rightarrow> [Draw (vertexCount (mesh r))])"
    using renderCamera_draw_calls [of p b v pr r w] by (simp add: draw_of_def)
  have "camera_draws = (\<lambda>c. concat (map draw_of (renderables (scene c))))"
    by (rule ext) (simp add: camera_draws_def)
  then show "filter is_draw (calls (snd (RenderLoop fr s))) =
       filter is_draw (calls (snd s)) @
       concat (map (\<lambda>c. concat (map draw_of (renderables (scene c))))
                   (filter (resolvable fr) (yielded fr s)))"
    using RenderLoop_draws [of fr s] by simp
qed

text \<open>
  The scenario of the spec: the quad of 6 indices gets one indexed draw of count 6, the
  triangle of 3 vertices without index buffer one non-indexed draw of count 3.
\<close>

theorem one_draw_per_renderable_witness:
  "filter is_draw (calls (snd (RenderLoop demo_first demo_start))) =
     [SetIndexBuffer 51 Uint16, DrawIndexed 6, Draw 3]"
proof -
  have y: "yielded demo_first demo_start =
     [demo_camera (CanvasTarget ''gone'') True 1 [demo_quad],
      demo_camera (CanvasTarget ''main'') True 2 [demo_quad, demo_triangle]]"
    by (simp add: yielded_def updatedScene_def buildRenderStack_def getRenderCameras_def
        split_beta Let_def demo_first_def demo_frame_def demo_camera_def)
  have "filter is_draw (calls (snd (RenderLoop demo_first demo_start))) =
       filter is_draw (calls (snd demo_start)) @
       concat (map (\<lambda>c. concat (map draw_of (renderables (scene c))))
                   (filter (resolvable demo_first) (yielded demo_first demo_start)))"
    using one_draw_per_renderable
      [of 0 0 "[]" "[]" demo_quad "snd demo_start" demo_first demo_start]
    by blast
  then show ?thesis
    unfolding y by (simp add: resolvable_def draw_of_def demo_defs)
qed

text \<open>
  Claim C9. In every run from a new engine the delta-time that the first \<open>beginFrame\<close>
  records is exactly 0, and with a clock that never runs backwards every delta-time
  recorded by \<open>beginFrame\<close> is non-negative.
\<close>

theorem first_delta_zero_then_nonnegative:
  "sorted (clock frs) \<Longrightarrow>
     (\<forall>d \<in> set (deltaTimes frs (Engine_new, w)). 0 \<le> d)
     \<and> (frs \<noteq> [] \<longrightarrow> hd (deltaTimes frs (Engine_new, w)) = 0)"
proof
  assume mono: "sorted (clock frs)"
  show "\<forall>d \<in> set (deltaTimes frs (Engine_new, w)). 0 \<le> d"
    by (rule deltaTimes_nonneg [OF mono]) (simp add: Engine_new_def)
  show "frs \<noteq> [] \<longrightarrow> hd (deltaTimes frs (Engine_new, w)) = 0"
    by (cases frs) (simp_all add: beginFrame_delta Engine_new_def)
qed

theorem first_delta_zero_then_nonnegative_witness:
  "sorted (clock [demo_first, demo_second]) \<and> [demo_first, demo_second] \<noteq> []
   \<and> deltaTimes [demo_first, demo_second] (Engine_new, \<lparr>nextHandle = 0, calls = []\<rparr>)
       = [0, 2 / 125]
   \<and> hd (deltaTimes [demo_first, demo_second] (Engine_new, \<lparr>nextHandle = 0, calls = []\<rparr>)) = 0"
proof -
  have mono: "sorted (clock [demo_first, demo_second])"
    by (simp add: clock_def demo_defs)
  have d: "deltaTimes [demo_first, demo_second] (Engine_new, \<lparr>nextHandle = 0, calls = []\<rparr>)
       = [0, 2 / 125]"
    by (simp add: beginFrame_delta RenderLoop_lastFrameTime demo_defs Engine_new_def)
  from first_delta_zero_then_nonnegative [OF mono, of "\<lparr>nextHandle = 0, calls = []\<rparr>"] mono
  show ?thesis
    unfolding d by simp
qed

end
